theory Spec2Isabelle
  imports Complex_Main
begin

section \<open>JavaScript strings\<close>

text \<open>
  A JavaScript string is modelled as a \<^typ>\<open>string\<close>: a list of code units. The model
  covers the code units 0 to 255 (ASCII and Latin-1), which is closed under every
  string operation the handlers apply (\<open>toLowerCase\<close>, \<open>trim\<close>, \<open>split\<close>, \<open>includes\<close>
  and the regular expressions below).
\<close>

definition lower_letters :: string where
  "lower_letters = ''abcdefghijklmnopqrstuvwxyz''"

definition upper_letters :: string where
  "upper_letters = ''ABCDEFGHIJKLMNOPQRSTUVWXYZ''"

definition digit_chars :: string where
  "digit_chars = ''0123456789''"

definition is_lower :: "char \<Rightarrow> bool" where
  "is_lower c = (c \<in> set lower_letters)"

definition is_upper :: "char \<Rightarrow> bool" where
  "is_upper c = (c \<in> set upper_letters)"

text \<open>\<open>\d\<close>\<close>
definition is_digit :: "char \<Rightarrow> bool" where
  "is_digit c = (c \<in> set digit_chars)"

text \<open>\<open>\w\<close>: \<open>[A-Za-z0-9_]\<close>\<close>
definition is_word :: "char \<Rightarrow> bool" where
  "is_word c = (is_lower c \<or> is_upper c \<or> is_digit c \<or> c = CHR ''_'')"

text \<open>
  \<open>\s\<close>, and the characters \<open>trim\<close> strips: tab, line feed, vertical tab, form feed,
  carriage return, space and the no-break space (code unit 160).
\<close>
definition is_space :: "char \<Rightarrow> bool" where
  "is_space c = ((of_char c :: nat) \<in> {9, 10, 11, 12, 13, 32, 160})"

text \<open>\<open>.\<close>: any character except a line terminator.\<close>
definition is_dot :: "char \<Rightarrow> bool" where
  "is_dot c = (c \<noteq> CHR 0x0A \<and> c \<noteq> CHR 0x0D)"

text \<open>\<open>[\s\S]\<close>\<close>
definition is_any :: "char \<Rightarrow> bool" where
  "is_any c = True"

text \<open>
  \<open>String.prototype.toLowerCase\<close>, one code unit at a time: \<open>A-Z\<close> and the Latin-1
  capitals 192 to 222 (without the multiplication sign 215) move up by 32.
\<close>
definition lower_char :: "char \<Rightarrow> char" where
  "lower_char c =
     (let n = (of_char c :: nat)
      in if (65 \<le> n \<and> n \<le> 90) \<or> (192 \<le> n \<and> n \<le> 222 \<and> n \<noteq> 215)
         then char_of (n + 32) else c)"

definition toLowerCase :: "string \<Rightarrow> string" where
  "toLowerCase s = map lower_char s"

text \<open>\<open>toUpperCase\<close> is only applied to the band keys of the scoring table (ASCII).\<close>
definition upper_char :: "char \<Rightarrow> char" where
  "upper_char c =
     (let n = (of_char c :: nat)
      in if 97 \<le> n \<and> n \<le> 122 then char_of (n - 32) else c)"

definition toUpperCase :: "string \<Rightarrow> string" where
  "toUpperCase s = map upper_char s"

definition trim :: "string \<Rightarrow> string" where
  "trim s = rev (dropWhile is_space (rev (dropWhile is_space s)))"

text \<open>\<open>s.split(c)\<close> for a separator of one character: never empty, \<open>"".split(c) = [""]\<close>.\<close>
fun split :: "char \<Rightarrow> string \<Rightarrow> string list" where
  "split c [] = [[]]"
| "split c (x # xs) =
     (if x = c then [] # split c xs
      else (case split c xs of [] \<Rightarrow> [[x]] | l # ls \<Rightarrow> (x # l) # ls))"

fun starts_with :: "string \<Rightarrow> string \<Rightarrow> bool" where
  "starts_with [] s = True"
| "starts_with (p # ps) [] = False"
| "starts_with (p # ps) (x # xs) = (p = x \<and> starts_with ps xs)"

text \<open>\<open>hay.includes(needle)\<close>\<close>
fun str_includes :: "string \<Rightarrow> string \<Rightarrow> bool" where
  "str_includes [] needle = starts_with needle []"
| "str_includes (x # xs) needle = (starts_with needle (x # xs) \<or> str_includes xs needle)"

definition digit_val :: "char \<Rightarrow> nat" where
  "digit_val c = of_char c - 48"

text \<open>
  \<open>Number(s)\<close> and \<open>parseInt(s, 10)\<close> on a string of decimal digits (what a group
  \<open>(\d)\<close> or \<open>(\d{1,3})\<close> captures).
\<close>
definition Number_digits :: "string \<Rightarrow> nat" where
  "Number_digits s = foldl (\<lambda>a c. 10 * a + digit_val c) 0 s"

section \<open>Regular expressions\<close>

text \<open>
  The regular expressions of the source are kept as syntax trees and run by one
  backtracking matcher with the semantics of JavaScript's \<open>RegExp\<close>: alternatives are
  tried left to right, quantifiers are greedy and give back one repetition at a time,
  and the first way to match wins. \<open>rmatch r st\<close> lists, in that order of priority,
  every state in which \<open>r\<close> can end when started in \<open>st\<close>. A state is the index in the
  subject string, the rest of the subject from there, and the groups captured so far.
\<close>

datatype rx =
    Atom "char \<Rightarrow> bool"
  | Eps
  | Seq rx rx
  | Alt rx rx
  | Star rx
  | Group nat rx
  | Bol
  | Eol

type_synonym mstate = "nat \<times> string \<times> (nat \<times> string) list"

text \<open>
  A greedy star: one more repetition first, then stop. A repetition that consumes
  nothing is not taken (as in JavaScript), so the length of the rest bounds the number
  of repetitions.
\<close>
fun star_iter :: "nat \<Rightarrow> (mstate \<Rightarrow> mstate list) \<Rightarrow> mstate \<Rightarrow> mstate list" where
  "star_iter 0 f st = [st]"
| "star_iter (Suc n) f st =
     concat (map (star_iter n f)
       (filter (\<lambda>st'. length (fst (snd st')) < length (fst (snd st))) (f st))) @ [st]"

primrec rmatch :: "rx \<Rightarrow> mstate \<Rightarrow> mstate list" where
  "rmatch (Atom p) st =
     (case st of (pos, rest, caps) \<Rightarrow>
        (case rest of [] \<Rightarrow> [] | x # xs \<Rightarrow> if p x then [(Suc pos, xs, caps)] else []))"
| "rmatch Eps st = [st]"
| "rmatch (Seq a b) st = concat (map (rmatch b) (rmatch a st))"
| "rmatch (Alt a b) st = rmatch a st @ rmatch b st"
| "rmatch (Star a) st = star_iter (length (fst (snd st))) (rmatch a) st"
| "rmatch (Group i a) st =
     map (\<lambda>st'. (fst st', fst (snd st'),
                 (i, take (fst st' - fst st) (fst (snd st))) # snd (snd st')))
       (rmatch a st)"
| "rmatch Bol st = (if fst st = 0 then [st] else [])"
| "rmatch Eol st = (if fst (snd st) = [] then [st] else [])"

text \<open>\<open>r+\<close>, \<open>r?\<close>, \<open>r{1,3}\<close> and \<open>r{2,}\<close>, all greedy.\<close>

definition Plus :: "rx \<Rightarrow> rx" where
  "Plus r = Seq r (Star r)"

definition Opt :: "rx \<Rightarrow> rx" where
  "Opt r = Alt r Eps"

definition Rep13 :: "rx \<Rightarrow> rx" where
  "Rep13 r = Seq r (Opt (Seq r (Opt r)))"

definition Rep2 :: "rx \<Rightarrow> rx" where
  "Rep2 r = Seq r (Seq r (Star r))"

text \<open>
  A literal character under the \<open>i\<close> flag. All literals of the source are ASCII, and a
  character outside ASCII never folds to an ASCII one, so folding ASCII case is exact.
\<close>
definition nocase :: "char \<Rightarrow> char \<Rightarrow> bool" where
  "nocase c x = (upper_char x = upper_char c)"

definition exact :: "char \<Rightarrow> char \<Rightarrow> bool" where
  "exact c x = (x = c)"

fun lit :: "(char \<Rightarrow> char \<Rightarrow> bool) \<Rightarrow> string \<Rightarrow> rx" where
  "lit eq [] = Eps"
| "lit eq [c] = Atom (eq c)"
| "lit eq (c # cs) = Seq (Atom (eq c)) (lit eq cs)"

fun alts :: "rx list \<Rightarrow> rx" where
  "alts [] = Eps"
| "alts [r] = r"
| "alts (r # rs) = Alt r (alts rs)"

fun seqs :: "rx list \<Rightarrow> rx" where
  "seqs [] = Eps"
| "seqs [r] = r"
| "seqs (r # rs) = Seq r (seqs rs)"

text \<open>
  The leftmost match at or after the current index: \<open>(start, end state)\<close>.
\<close>
fun rx_search :: "rx \<Rightarrow> nat \<Rightarrow> string \<Rightarrow> (nat \<times> mstate) option" where
  "rx_search r pos [] =
     (case rmatch r (pos, [], []) of [] \<Rightarrow> None | st # _ \<Rightarrow> Some (pos, st))"
| "rx_search r pos (x # xs) =
     (case rmatch r (pos, x # xs, []) of
        [] \<Rightarrow> rx_search r (Suc pos) xs
      | st # _ \<Rightarrow> Some (pos, st))"

text \<open>
  \<open>s.match(r)\<close> for a regular expression without the \<open>g\<close> flag: the captured groups of
  the leftmost match (\<open>match[i]\<close> is \<open>map_of caps i\<close>), or \<open>None\<close> for \<open>null\<close>.
\<close>
definition js_match :: "rx \<Rightarrow> string \<Rightarrow> (nat \<times> string) list option" where
  "js_match r s = map_option (\<lambda>(start, st). snd (snd st)) (rx_search r 0 s)"

text \<open>\<open>r.test(s)\<close>\<close>
definition js_test :: "rx \<Rightarrow> string \<Rightarrow> bool" where
  "js_test r s = (rx_search r 0 s \<noteq> None)"

section \<open>Score extraction\<close>

text \<open>
  \<open>/Score:\s*(Stretch|Commitment|Robust|Warning|Offtrack)\s*\((\d)\/5\)/i\<close>,
  the pattern of \<open>/api/check-file\<close> in both servers.
\<close>
definition score_rx :: rx where
  "score_rx = seqs [
     lit nocase ''Score:'', Star (Atom is_space),
     Group 1 (alts [lit nocase ''Stretch'', lit nocase ''Commitment'', lit nocase ''Robust'',
                    lit nocase ''Warning'', lit nocase ''Offtrack'']),
     Star (Atom is_space), Atom (exact CHR ''(''), Group 2 (Atom is_digit),
     lit nocase ''/5)'']"

text \<open>
  \<^verbatim>\<open>
  let score = null;
  const match = feedback.match(/Score:\s*(...)\s*\((\d)\/5\)/i);
  if (match) { score = parseInt(match[2], 10); }
  \<close>
\<close>
definition parse_score :: "string \<Rightarrow> nat option" where
  "parse_score feedback =
     (case js_match score_rx feedback of
        None \<Rightarrow> None
      | Some caps \<Rightarrow> (case map_of caps 2 of None \<Rightarrow> None | Some d \<Rightarrow> Some (Number_digits d)))"

text \<open>
  \<open>/Score:\s*(?:\w+\s*)?\(?(\d{1,3})\/?5?\)?/gi\<close>, the pattern of \<open>extractAllScores\<close>.
\<close>
definition all_scores_rx :: rx where
  "all_scores_rx = seqs [
     lit nocase ''Score:'', Star (Atom is_space),
     Opt (Seq (Plus (Atom is_word)) (Star (Atom is_space))),
     Opt (Atom (exact CHR ''('')), Group 1 (Rep13 (Atom is_digit)),
     Opt (Atom (exact CHR ''/'')), Opt (Atom (exact CHR ''5'')), Opt (Atom (exact CHR '')''))]"

text \<open>
  The loop \<open>while ((match = regex.exec(feedbackText))) { if (match[1]) scores.push(Number(match[1])); }\<close>
  of a regular expression with the \<open>g\<close> flag: each search starts at \<open>lastIndex\<close>, the end
  of the match before. A match that leaves \<open>lastIndex\<close> where the search started is found
  again forever; that run of the loop has the value \<open>None\<close>.
\<close>
function exec_loop :: "rx \<Rightarrow> nat \<Rightarrow> string \<Rightarrow> nat list option" where
  "exec_loop r pos rest =
     (case rx_search r pos rest of
        None \<Rightarrow> Some []
      | Some (start, st) \<Rightarrow>
          if length (fst (snd st)) < length rest then
            (case exec_loop r (fst st) (fst (snd st)) of
               None \<Rightarrow> None
             | Some scores \<Rightarrow>
                 Some ((case map_of (snd (snd st)) 1 of
                          None \<Rightarrow> []
                        | Some d \<Rightarrow> if d = [] then [] else [Number_digits d]) @ scores))
          else None)"
  by pat_completeness auto
termination
  by (relation "measure (\<lambda>(r, pos, rest). length rest)") auto

declare exec_loop.simps [simp del]

text \<open>
  \<open>extractAllScores(feedbackText)\<close>; the argument is \<open>None\<close> for a \<open>null\<close> column
  and \<open>if (!feedbackText) return scores\<close> covers it and the empty string.
\<close>
definition extractAllScores :: "string option \<Rightarrow> nat list option" where
  "extractAllScores feedbackText =
     (case feedbackText of
        None \<Rightarrow> Some []
      | Some t \<Rightarrow> if t = [] then Some [] else exec_loop all_scores_rx 0 t)"

section \<open>Global replacement\<close>

text \<open>
  \<open>s.replace(r, repl)\<close> for a regular expression with the \<open>g\<close> flag and a constant
  replacement: the subject is scanned from the left, each match is replaced and the scan
  goes on behind it; after an empty match the next character is copied.
\<close>
function replace_all :: "rx \<Rightarrow> string \<Rightarrow> nat \<Rightarrow> string \<Rightarrow> string" where
  "replace_all r repl pos [] = (case rmatch r (pos, [], []) of [] \<Rightarrow> [] | st # _ \<Rightarrow> repl)"
| "replace_all r repl pos (x # xs) =
     (case rmatch r (pos, x # xs, []) of
        [] \<Rightarrow> x # replace_all r repl (Suc pos) xs
      | st # _ \<Rightarrow>
          if length (fst (snd st)) < length (x # xs)
          then repl @ replace_all r repl (fst st) (fst (snd st))
          else repl @ x # replace_all r repl (Suc pos) xs)"
  by pat_completeness auto
termination
  by (relation "measure (\<lambda>(r, repl, pos, rest). length rest)") auto

section \<open>Identity consistency\<close>

subsection \<open>Exact-normalized comparison (the second server)\<close>

text \<open>\<open>/(private|pvt|limited|ltd|inc|corp|company|co|plc)/g\<close>\<close>
definition suffix_rx :: rx where
  "suffix_rx = Group 1 (alts [lit exact ''private'', lit exact ''pvt'', lit exact ''limited'',
     lit exact ''ltd'', lit exact ''inc'', lit exact ''corp'', lit exact ''company'',
     lit exact ''co'', lit exact ''plc''])"

text \<open>\<open>/[^a-z0-9]/g\<close>\<close>
definition non_alnum_rx :: rx where
  "non_alnum_rx = Atom (\<lambda>c. \<not> (is_lower c \<or> is_digit c))"

text \<open>\<open>/\s+/g\<close>\<close>
definition spaces_rx :: rx where
  "spaces_rx = Plus (Atom is_space)"

text \<open>
  \<^verbatim>\<open>
  function normalizeCompanyName(str) {
    return (str || "")
      .toLowerCase()
      .replace(/(private|pvt|limited|ltd|inc|corp|company|co|plc)/g, "")
      .replace(/[^a-z0-9]/g, "")
      .replace(/\s+/g, "");
  }
  \<close>
\<close>
definition normalizeCompanyName :: "string \<Rightarrow> string" where
  "normalizeCompanyName str =
     replace_all spaces_rx [] 0
       (replace_all non_alnum_rx [] 0
          (replace_all suffix_rx [] 0 (toLowerCase str)))"

text \<open>
  \<^verbatim>\<open>
  const lines = text.split("\n").map((l) => l.trim()).filter((l) => l.length > 4);
  const candidateNames = lines.filter((l) => {
    return (l.toLowerCase().includes("metro") &&
      (l.toLowerCase().includes("telwork") || l.toLowerCase().includes("telworks")));
  });
  candidateNames.push(officialCompanyName);
  const normalizedAuth = normalizeCompanyName(officialCompanyName);
  const hasMatch = candidateNames.some((l) => normalizeCompanyName(l) === normalizedAuth);
  \<close>
\<close>
definition candidateNames :: "string \<Rightarrow> string \<Rightarrow> string list" where
  "candidateNames text officialCompanyName =
     filter (\<lambda>l. str_includes (toLowerCase l) ''metro'' \<and>
                 (str_includes (toLowerCase l) ''telwork'' \<or>
                  str_includes (toLowerCase l) ''telworks''))
       (filter (\<lambda>l. length l > 4) (map trim (split CHR 0x0A text)))
     @ [officialCompanyName]"

definition hasMatch :: "string \<Rightarrow> string \<Rightarrow> bool" where
  "hasMatch text officialCompanyName =
     list_ex (\<lambda>l. normalizeCompanyName l = normalizeCompanyName officialCompanyName)
       (candidateNames text officialCompanyName)"

subsection \<open>Token overlap (\<open>server.js\<close>)\<close>

text \<open>\<open>.replace(/[^a-z0-9 ]/gi, "")\<close>: under the \<open>i\<close> flag the class holds both cases.\<close>
definition non_alnum_space_rx :: rx where
  "non_alnum_space_rx =
     Atom (\<lambda>c. \<not> (is_lower c \<or> is_upper c \<or> is_digit c \<or> c = CHR '' ''))"

text \<open>
  \<^verbatim>\<open>
  const supplierName = data.supplier_name.trim().toLowerCase().replace(/[^a-z0-9 ]/gi, "");
  const docTextNorm = text.toLowerCase().replace(/[^a-z0-9 ]/gi, "");
  const supplierWords = supplierName.split(" ").filter((w) => w.length > 2);
  let matchCount = 0;
  supplierWords.forEach((word) => { if (docTextNorm.includes(word)) matchCount++; });
  if (matchCount < Math.min(2, supplierWords.length)) { ...reject... }
  \<close>
\<close>
definition supplierWords :: "string \<Rightarrow> string list" where
  "supplierWords supplier_name =
     filter (\<lambda>w. length w > 2)
       (split CHR '' '' (replace_all non_alnum_space_rx [] 0 (toLowerCase (trim supplier_name))))"

definition docTextNorm :: "string \<Rightarrow> string" where
  "docTextNorm text = replace_all non_alnum_space_rx [] 0 (toLowerCase text)"

definition matchCount :: "string \<Rightarrow> string \<Rightarrow> nat" where
  "matchCount text supplier_name =
     length (filter (\<lambda>word. str_includes (docTextNorm text) word) (supplierWords supplier_name))"

definition name_mentioned :: "string \<Rightarrow> string \<Rightarrow> bool" where
  "name_mentioned text supplier_name =
     (\<not> matchCount text supplier_name < min 2 (length (supplierWords supplier_name)))"

subsection \<open>Company-name extraction (\<open>server.js\<close>)\<close>

text \<open>\<open>/(?:company name|supplier)[:\-]\s*(.+)$/i\<close>\<close>
definition label_rx :: rx where
  "label_rx = seqs [
     Alt (lit nocase ''company name'') (lit nocase ''supplier''),
     Atom (\<lambda>c. c = CHR '':'' \<or> c = CHR ''-''),
     Star (Atom is_space), Group 1 (Plus (Atom is_dot)), Eol]"

text \<open>
  \<open>/^(PT|CV|UD|PD|PERUSAHAAN|COMPANY|CORP|CORPORATION|INC|CO\.?|LTD|LLC|S\.A\.|Tbk)\s+[A-Z0-9 .,&()'"\-]{2,}$/i\<close>
\<close>
definition entity_rx :: rx where
  "entity_rx = seqs [
     Bol,
     Group 1 (alts [lit nocase ''PT'', lit nocase ''CV'', lit nocase ''UD'', lit nocase ''PD'',
       lit nocase ''PERUSAHAAN'', lit nocase ''COMPANY'', lit nocase ''CORP'',
       lit nocase ''CORPORATION'', lit nocase ''INC'',
       Seq (lit nocase ''CO'') (Opt (Atom (exact CHR ''.''))),
       lit nocase ''LTD'', lit nocase ''LLC'', lit nocase ''S.A.'', lit nocase ''Tbk'']),
     Plus (Atom is_space),
     Rep2 (Atom (\<lambda>c. is_upper c \<or> is_lower c \<or> is_digit c \<or> c \<in> set '' .,&()'' \<or>
                      c = CHR 0x27 \<or> c = CHR 0x22 \<or> c = CHR ''-'')),
     Eol]"

text \<open>\<open>/^[a-zA-Z\s.]+$/\<close>\<close>
definition alphabetic_rx :: rx where
  "alphabetic_rx = seqs [
     Bol, Plus (Atom (\<lambda>c. is_lower c \<or> is_upper c \<or> is_space c \<or> c = CHR ''.'')), Eol]"

text \<open>
  \<open>extractCompanyName(text)\<close>: four passes over the trimmed lines longer than two
  characters; the first pass that finds a line returns.
\<close>
fun labelled_name :: "string list \<Rightarrow> string option" where
  "labelled_name [] = None"
| "labelled_name (line # lines) =
     (case js_match label_rx line of
        None \<Rightarrow> labelled_name lines
      | Some caps \<Rightarrow>
          (case map_of caps 1 of
             None \<Rightarrow> labelled_name lines
           | Some m \<Rightarrow> if m = [] then labelled_name lines else Some (trim m)))"

definition extractCompanyName :: "string \<Rightarrow> string" where
  "extractCompanyName text =
     (let lines = filter (\<lambda>l. length l > 2) (map trim (split CHR 0x0A text))
      in case labelled_name lines of
           Some name \<Rightarrow> name
         | None \<Rightarrow>
             (case find (js_test entity_rx) lines of
                Some line \<Rightarrow> line
              | None \<Rightarrow>
                  (case find (\<lambda>line. length (split CHR '' '' line) \<ge> 2 \<and>
                                      js_test alphabetic_rx line) lines of
                     Some line \<Rightarrow> line
                   | None \<Rightarrow> (case lines of [] \<Rightarrow> [] | l # _ \<Rightarrow> l))))"

section \<open>The rubric\<close>

record question =
  q_number :: int
  q_text :: string
  q_scoring :: "(string \<times> string) list"

definition questionData :: "question list" where
  "questionData = [
    \<lparr>q_number = 1,
     q_text =
       ''Does your Company have a written OHS Policy that has been approved by yo'' @
       ''ur top management and has been communicated throughout the organization '' @
       ''and to your subcontractors (when applicable)?'',
     q_scoring = [
       (''stretch'',
        ''Policy includes beyond-compliance elements, communicated widely includin'' @
        ''g external partners.''),
       (''commitment'',
        ''Policy is approved and communicated effectively to internal staff.''),
       (''robust'',
        ''Policy exists and is approved, but limited communication.''),
       (''warning'',
        ''Policy exists but is outdated or lacks clear communication.''),
       (''offtrack'',
        ''No written policy or evidence of communication.'')]\<rparr>,
    \<lparr>q_number = 2,
     q_text =
       ''Has your Company committed any infringements to the laws or regulations '' @
       ''concerning Occupational Health & Safety (OHS) matters in the last three '' @
       ''(03) years or is under any current investigation by, or in discussions w'' @
       ''ith, any regulatory authority in respect of any OHS matters, accident or'' @
       '' alleged breach of OHS laws or regulations?'',
     q_scoring = [
       (''stretch'',
        ''No infringements, with proactive legal tracking and transparent processe'' @
        ''s.''),
       (''commitment'',
        ''No infringements and system for monitoring legal compliance exists.''),
       (''robust'',
        ''No major infringements, basic legal compliance process.''),
       (''warning'',
        ''Past issues with weak documentation.''),
       (''offtrack'',
        ''Current investigations or multiple recent breaches.'')]\<rparr>,
    \<lparr>q_number = 3,
     q_text =
       ''Does the company have a process for Incident Reporting and Investigation'' @
       '', including a system for recording safety incidents (near misses, injuri'' @
       ''es, fatalities etc.) that meets local regulations and Ericsson'' @
       [CHR 0x27] @
       ''s OHS Requirements at a minimum?'',
     q_scoring = [
       (''stretch'',
        ''Digital system integrated with real-time reporting and thorough root cau'' @
        ''se analysis.''),
       (''commitment'',
        ''Formal documented system used consistently.''),
       (''robust'',
        ''Procedure exists but lacks consistency in use or documentation.''),
       (''warning'',
        ''Manual or informal process, missing elements.''),
       (''offtrack'',
        ''No structured process for reporting and investigation.'')]\<rparr>]"

text \<open>\<open>arr.join(sep)\<close>\<close>
fun join :: "string \<Rightarrow> string list \<Rightarrow> string" where
  "join sep [] = []"
| "join sep [x] = x"
| "join sep (x # xs) = x @ sep @ join sep xs"

definition getScoringGuide :: "int \<Rightarrow> string" where
  "getScoringGuide qNumber =
     (case find (\<lambda>q. q_number q = qNumber) questionData of
        None \<Rightarrow> []
      | Some q \<Rightarrow>
          join [CHR 0x0A]
            (map (\<lambda>(band, desc). ''- '' @ toUpperCase band @ '': '' @ desc @ [CHR 0x0A])
               (q_scoring q)))"

definition getQuestionText :: "int \<Rightarrow> string" where
  "getQuestionText qNumber =
     (case find (\<lambda>q. q_number q = qNumber) questionData of None \<Rightarrow> [] | Some q \<Rightarrow> q_text q)"

section \<open>Numbers\<close>

definition hex_digit_val :: "char \<Rightarrow> nat option" where
  "hex_digit_val c =
     (if is_digit c then Some (digit_val c)
      else (let n = (of_char (lower_char c) :: nat)
            in if 97 \<le> n \<and> n \<le> 102 then Some (n - 87) else None))"

text \<open>
  \<open>parseInt(v)\<close> without a radix, on a body field that may be missing (\<open>None\<close>): leading
  white space, a sign, \<open>0x\<close> for radix 16, then the longest run of digits. \<open>None\<close> is
  \<open>NaN\<close>. (Beyond \<open>2^53\<close> JavaScript rounds the value to a double; the handlers only
  test the result for zero and compare it with 1.)
\<close>
definition parseInt :: "string option \<Rightarrow> int option" where
  "parseInt v =
     (case v of
        None \<Rightarrow> None
      | Some s \<Rightarrow>
          (let s1 = dropWhile is_space s;
               neg = (s1 \<noteq> [] \<and> hd s1 = CHR ''-'');
               s2 = (if s1 \<noteq> [] \<and> (hd s1 = CHR ''-'' \<or> hd s1 = CHR ''+'') then tl s1 else s1);
               hex = (starts_with ''0x'' s2 \<or> starts_with ''0X'' s2);
               s3 = (if hex then drop 2 s2 else s2);
               ds = (if hex then takeWhile (\<lambda>c. hex_digit_val c \<noteq> None) s3
                     else takeWhile is_digit s3);
               n = (if hex then foldl (\<lambda>a c. 16 * a + the (hex_digit_val c)) 0 ds
                    else Number_digits ds)
           in if ds = [] then None else Some (if neg then - int n else int n)))"

subsection \<open>Double-precision arithmetic\<close>

text \<open>
  JavaScript numbers are IEEE 754 doubles. A finite double that is not negative is
  modelled by its exact value, a fraction \<open>(numerator, denominator)\<close>. \<open>fl n d\<close> is the
  double nearest to \<open>n / d\<close> (\<open>n \<ge> 0\<close>, \<open>d > 0\<close>): the quotient is scaled by a power of two
  into \<open>[2^52, 2^53)\<close>, rounded to an integer with ties to even, and scaled back.
  Exponent limits are not modelled (they are out of reach for quotients of counts).
\<close>

text \<open>The number of binary digits of a positive integer.\<close>
function bit_length :: "int \<Rightarrow> int" where
  "bit_length n = (if n \<le> 0 then 0 else 1 + bit_length (n div 2))"
  by pat_completeness auto
termination
  by (relation "measure nat") auto

declare bit_length.simps [simp del]

definition rne :: "int \<Rightarrow> int \<Rightarrow> int" where
  "rne n d =
     (let q = n div d; r = n mod d
      in if 2 * r < d then q else if 2 * r > d then q + 1 else if even q then q else q + 1)"

definition fl :: "int \<Rightarrow> int \<Rightarrow> int \<times> int" where
  "fl n d =
     (if n = 0 then (0, 1)
      else
        (let s = 53 - (bit_length n - bit_length d);
             N = (if 0 \<le> s then n * 2 ^ nat s else n);
             D = (if 0 \<le> s then d else d * 2 ^ nat (- s));
             s' = (if 2 ^ 53 * D \<le> N then s - 1 else s);
             D' = (if 2 ^ 53 * D \<le> N then 2 * D else D);
             M = rne N D'
         in if 0 \<le> s' then (M, 2 ^ nat s') else (M * 2 ^ nat (- s'), 1)))"

text \<open>\<open>x / y\<close> and \<open>x * y\<close> on doubles: the exact result, rounded once.\<close>
definition fdiv :: "int \<times> int \<Rightarrow> int \<times> int \<Rightarrow> int \<times> int" where
  "fdiv x y = fl (fst x * snd y) (snd x * fst y)"

definition fmul :: "int \<times> int \<Rightarrow> int \<times> int \<Rightarrow> int \<times> int" where
  "fmul x y = fl (fst x * fst y) (snd x * snd y)"

text \<open>\<open>Math.round(x)\<close>: the integer nearest to \<open>x\<close>, a tie going up.\<close>
definition Math_round :: "int \<times> int \<Rightarrow> int" where
  "Math_round x = (2 * fst x + snd x) div (2 * snd x)"

text \<open>A count or a sum of scores as a double (exact below \<open>2^53\<close>).\<close>
definition dbl :: "nat \<Rightarrow> int \<times> int" where
  "dbl n = (int n, 1)"

section \<open>Storage, collaborators, requests and responses\<close>

text \<open>The message of a thrown \<open>Error\<close>.\<close>
type_synonym exn = string

text \<open>A value read from parsed JSON.\<close>
datatype jsval = JUndefined | JNull | JBool bool | JNumber rat | JString string | JObject

fun truthy :: "jsval \<Rightarrow> bool" where
  "truthy JUndefined = False"
| "truthy JNull = False"
| "truthy (JBool b) = b"
| "truthy (JNumber n) = (n \<noteq> 0)"
| "truthy (JString s) = (s \<noteq> [])"
| "truthy JObject = True"

text \<open>A row of the table \<open>answers\<close>: the stored verdict of one question for one subject.\<close>
record answer_row =
  email :: string
  question_number :: int
  answer :: "string option"
  upload_feedback :: "string option"
  skip_reason :: "string option"
  updated_at :: "string option"

record session_row =
  session_email :: string
  gemini_summary :: jsval
  gemini_score :: jsval

text \<open>
  What is sent to the LLM. The fixed wording of a prompt is left out: the LLM is a function
  of the parts that the handler puts into the template.
\<close>
datatype prompt =
    ReviewPrompt string string string "string option" "string option"
  | SummaryPrompt "(int \<times> string \<times> string option \<times> string option \<times> string option) list"

text \<open>
  The tables, the directory of uploaded temporary files, and the prompts sent so far.
  Storage is in memory and its operations succeed.
\<close>
record world =
  answers :: "answer_row list"
  supplier_names :: "(string \<times> string) list"
  sessions :: "session_row list"
  tmp_files :: "string list"
  llm_calls :: "prompt list"

record upload =
  path :: string
  originalname :: string

text \<open>\<open>req.file\<close> and the fields of \<open>req.body\<close>.\<close>
record request =
  req_file :: "upload option"
  body_email :: string
  questionNumber :: "string option"
  userExplanation :: "string option"
  ocrLang :: "string option"

text \<open>
  The collaborators: text extraction (of a file, with the OCR language when one is
  passed), the LLM, \<open>JSON.parse\<close> as far as the handlers read its result (the fields
  \<open>feedback\<close> and \<open>score\<close> of the parsed object, \<open>None\<close> when it throws), and the clock.
  \<open>Inl\<close> is a thrown exception.
\<close>
record env =
  extractText :: "upload \<Rightarrow> string option \<Rightarrow> exn + string"
  callGroq :: "prompt \<Rightarrow> exn + string"
  JSON_parse :: "string \<Rightarrow> (jsval \<times> jsval) option"
  now :: string

text \<open>
  The bodies that \<open>/api/check-file\<close> sends:
  \<open>{success: false, feedback}\<close>;
  \<open>{success: true, feedback, detectedCompanyName, requireCompanyNameConfirmation: true}\<close>;
  \<open>{success: false, feedback, requireCompanyNameConfirmation: true, detectedCompanyName}\<close>;
  \<open>{success: true, score, feedback}\<close>; and, with status 500, \<open>{error: err.message}\<close>.
\<close>
datatype check_response =
    Rejected string
  | ConfirmName string string
  | NameMismatch string string
  | Reviewed "nat option" string
  | ServerError exn

text \<open>
  The bodies that \<open>/api/session-summary\<close> sends: status 422, status 500, and
  \<open>{feedback, score}\<close>.
\<close>
datatype summary_response =
    NoAnswerData
  | SummaryFailed
  | Summary jsval jsval

definition unreadable_message :: string where
  "unreadable_message =
     ''Your document could not be read. Please upload a clear, readable file '' @
     ''(PDF, Word, or image) with visible content.''"

text \<open>\<open>fs.unlinkSync(p)\<close>\<close>
definition unlinkSync :: "string \<Rightarrow> world \<Rightarrow> exn + world" where
  "unlinkSync p w =
     (if p \<in> set (tmp_files w) then Inr (w\<lparr>tmp_files := removeAll p (tmp_files w)\<rparr>)
      else Inl ''ENOENT: no such file or directory'')"

text \<open>\<open>supabase.from("supplier_names").select("supplier_name").eq("email", email).single()\<close>\<close>
definition select_supplier_name :: "string \<Rightarrow> world \<Rightarrow> string option" where
  "select_supplier_name e w =
     (case filter (\<lambda>row. fst row = e) (supplier_names w) of
        [row] \<Rightarrow> Some (snd row)
      | _ \<Rightarrow> None)"

text \<open>
  \<open>supabase.from("answers").upsert({email, question_number, upload_feedback, updated_at},
  {onConflict: ["email", "question_number"]})\<close>
\<close>
definition upsert_feedback :: "string \<Rightarrow> int \<Rightarrow> string \<Rightarrow> string \<Rightarrow> answer_row list \<Rightarrow> answer_row list" where
  "upsert_feedback e q fb t rows =
     (if list_ex (\<lambda>r. email r = e \<and> question_number r = q) rows
      then map (\<lambda>r. if email r = e \<and> question_number r = q
                     then r\<lparr>upload_feedback := Some fb, updated_at := Some t\<rparr> else r) rows
      else rows @ [\<lparr>email = e, question_number = q, answer = None,
                     upload_feedback = Some fb, skip_reason = None, updated_at = Some t\<rparr>])"

text \<open>
  \<open>supabase.from("answers").select("*").eq("email", email).order("question_number",
  {ascending: true})\<close>
\<close>
definition select_answers :: "string \<Rightarrow> world \<Rightarrow> answer_row list" where
  "select_answers e w = sort_key question_number (filter (\<lambda>r. email r = e) (answers w))"

text \<open>
  \<open>supabase.from("sessions").update({gemini_summary, gemini_score}).eq("email", email)\<close>
\<close>
definition update_session :: "string \<Rightarrow> jsval \<Rightarrow> jsval \<Rightarrow> world \<Rightarrow> world" where
  "update_session e fb sc w =
     w\<lparr>sessions := map (\<lambda>r. if session_email r = e
                                then r\<lparr>gemini_summary := fb, gemini_score := sc\<rparr> else r)
                          (sessions w)\<rparr>"

section \<open>\<open>/api/check-file\<close>\<close>

text \<open>
  The last stage in both servers: the LLM is called, the single score is parsed from its
  reply, the verdict is upserted and \<open>{success: true, score, feedback}\<close> is sent. An
  exception of the call is caught by the handler's \<open>catch\<close> (status 500).
\<close>
definition review :: "env \<Rightarrow> request \<Rightarrow> int \<Rightarrow> string \<Rightarrow> string option \<Rightarrow> world \<Rightarrow> check_response \<times> world" where
  "review ev req qNum text company w =
     (let explanation = (case userExplanation req of
                           None \<Rightarrow> None
                         | Some x \<Rightarrow> if x = [] then None else Some x);
          p = ReviewPrompt (getQuestionText qNum) (getScoringGuide qNum) text explanation company;
          w1 = w\<lparr>llm_calls := llm_calls w @ [p]\<rparr>
      in case callGroq ev p of
           Inl e \<Rightarrow> (ServerError e, w1)
         | Inr feedback \<Rightarrow>
             (Reviewed (parse_score feedback) feedback,
              w1\<lparr>answers := upsert_feedback (body_email req) qNum feedback (now ev) (answers w1)\<rparr>))"

subsection \<open>\<open>server.js\<close>\<close>

definition identity_gate_server :: "env \<Rightarrow> request \<Rightarrow> int \<Rightarrow> string \<Rightarrow> world \<Rightarrow> check_response \<times> world" where
  "identity_gate_server ev req qNum text w =
     (if qNum = 1 then
        (let companyName = extractCompanyName text
         in (ConfirmName (''Detected company name: '' @ [CHR 0x22] @ companyName @ [CHR 0x22] @
                          ''. Please confirm or correct this.'') companyName, w))
      else
        (case select_supplier_name (body_email req) w of
           None \<Rightarrow>
             (Rejected (''No official supplier/company name was found from your OHS Policy '' @
                        ''(Q1R1). Please upload it first, or ensure your document clearly '' @
                        ''states your company name.''), w)
         | Some supplier_name \<Rightarrow>
             if supplier_name = [] then
               (Rejected (''No official supplier/company name was found from your OHS Policy '' @
                          ''(Q1R1). Please upload it first, or ensure your document clearly '' @
                          ''states your company name.''), w)
             else if matchCount text supplier_name < min 2 (length (supplierWords supplier_name)) then
               (NameMismatch (''Document does not clearly mention the supplier name detected '' @
                              ''from your OHS Policy: '' @ [CHR 0x22] @ supplier_name @ [CHR 0x22] @
                              ''. Please check or correct your company name. [You can manually '' @
                              ''set your company name if this keeps happening.]'') supplier_name, w)
             else review ev req qNum text None w))"

text \<open>
  The handler of \<open>server.js\<close>. Everything after the two early returns runs inside
  \<open>try\<close>: an exception of \<open>extractText\<close> or \<open>unlinkSync\<close> ends in the \<open>catch\<close>.
\<close>
definition check_file_server :: "env \<Rightarrow> request \<Rightarrow> world \<Rightarrow> check_response \<times> world" where
  "check_file_server ev req w =
     (case req_file req of
        None \<Rightarrow> (Rejected ''No file uploaded.'', w)
      | Some f \<Rightarrow>
          (case parseInt (questionNumber req) of
             None \<Rightarrow> (Rejected ''Invalid or missing question number.'', w)
           | Some qNum \<Rightarrow>
               if qNum = 0 then (Rejected ''Invalid or missing question number.'', w)
               else
                 (case extractText ev f None of
                    Inl e \<Rightarrow> (ServerError e, w)
                  | Inr text \<Rightarrow>
                      (case unlinkSync (path f) w of
                         Inl e \<Rightarrow> (ServerError e, w)
                       | Inr w1 \<Rightarrow>
                           if trim text = [] then (Rejected unreadable_message, w1)
                           else identity_gate_server ev req qNum text w1))))"

subsection \<open>The second server\<close>

definition identity_gate_second :: "env \<Rightarrow> request \<Rightarrow> int \<Rightarrow> string \<Rightarrow> string \<Rightarrow> world \<Rightarrow> check_response \<times> world" where
  "identity_gate_second ev req qNum text officialCompanyName w =
     (if \<not> hasMatch text officialCompanyName then
        (NameMismatch (''Document does not clearly mention the registered company name: '' @
                       [CHR 0x22] @ officialCompanyName @ [CHR 0x22] @
                       ''. Please re-upload a document that contains your company name as '' @
                       ''registered.'') officialCompanyName, w)
      else review ev req qNum text (Some officialCompanyName) w)"

definition check_file_second :: "env \<Rightarrow> request \<Rightarrow> world \<Rightarrow> check_response \<times> world" where
  "check_file_second ev req w =
     (let lang = (case ocrLang req of None \<Rightarrow> ''eng'' | Some l \<Rightarrow> if l = [] then ''eng'' else l)
      in case req_file req of
        None \<Rightarrow> (Rejected ''No file uploaded.'', w)
      | Some f \<Rightarrow>
          (case parseInt (questionNumber req) of
             None \<Rightarrow> (Rejected ''Invalid or missing question number.'', w)
           | Some qNum \<Rightarrow>
               if qNum = 0 then (Rejected ''Invalid or missing question number.'', w)
               else
                 (let officialCompanyName =
                        (case select_supplier_name (body_email req) w of
                           None \<Rightarrow> [] | Some n \<Rightarrow> trim n)
                  in if officialCompanyName = [] then
                       (Rejected (''No official supplier/company name found from your '' @
                                  ''login/profile. Please contact support or update your '' @
                                  ''profile.''), w)
                     else
                       (case extractText ev f (Some lang) of
                          Inl e \<Rightarrow> (ServerError e, w)
                        | Inr text \<Rightarrow>
                            (case unlinkSync (path f) w of
                               Inl e \<Rightarrow> (ServerError e, w)
                             | Inr w1 \<Rightarrow>
                                 if trim text = [] then (Rejected unreadable_message, w1)
                                 else identity_gate_second ev req qNum text officialCompanyName w1)))))"

section \<open>\<open>/api/session-summary\<close>\<close>

text \<open>\<open>/\{[\s\S]*\}/m\<close>; group 0 is the whole match, \<open>match[0]\<close>.\<close>
definition json_rx :: rx where
  "json_rx = Group 0 (seqs [Atom (exact CHR ''{''), Star (Atom is_any), Atom (exact CHR ''}'')])"

text \<open>\<open>/score\s*[:=]\s*(\d{1,3})/i\<close>\<close>
definition score_word_rx :: rx where
  "score_word_rx = seqs [
     lit nocase ''score'', Star (Atom is_space),
     Atom (\<lambda>c. c = CHR '':'' \<or> c = CHR ''=''),
     Star (Atom is_space), Group 1 (Rep13 (Atom is_digit))]"

text \<open>
  The summary prompt lists, for every answer, the question number and text, the answer,
  and the document review and the skip reason when they are not empty.
\<close>
definition nonempty :: "string option \<Rightarrow> string option" where
  "nonempty v = (case v of None \<Rightarrow> None | Some x \<Rightarrow> if x = [] then None else Some x)"

definition summary_prompt :: "answer_row list \<Rightarrow> prompt" where
  "summary_prompt rows =
     SummaryPrompt
       (map (\<lambda>ans. (question_number ans, getQuestionText (question_number ans), answer ans,
                     nonempty (upload_feedback ans), nonempty (skip_reason ans))) rows)"

subsection \<open>\<open>server.js\<close>\<close>

text \<open>
  \<^verbatim>\<open>
  const aiText = await callGroq(summaryPrompt);
  let feedback = aiText;
  let score = null;
  try {
    const match = aiText.match(/\{[\s\S]*\}/m);
    if (match) {
      const json = JSON.parse(match[0]);
      feedback = json.feedback || feedback;
      score = json.score || null;
    } else {
      const numMatch = aiText.match(/score\s*[:=]\s*(\d{1,3})/i);
      if (numMatch) score = parseInt(numMatch[1], 10);
    }
  } catch (e) {}
  \<close>
\<close>
definition read_reply_server :: "env \<Rightarrow> string \<Rightarrow> jsval \<times> jsval" where
  "read_reply_server ev aiText =
     (case js_match json_rx aiText of
        Some caps \<Rightarrow>
          (case JSON_parse ev (case map_of caps 0 of None \<Rightarrow> [] | Some m \<Rightarrow> m) of
             None \<Rightarrow> (JString aiText, JNull)
           | Some json \<Rightarrow>
               (if truthy (fst json) then fst json else JString aiText,
                if truthy (snd json) then snd json else JNull))
      | None \<Rightarrow>
          (JString aiText,
           (case js_match score_word_rx aiText of
              None \<Rightarrow> JNull
            | Some caps \<Rightarrow>
                (case map_of caps 1 of
                   None \<Rightarrow> JNull
                 | Some d \<Rightarrow> JNumber (of_nat (Number_digits d))))))"

definition session_summary_server :: "env \<Rightarrow> string \<Rightarrow> world \<Rightarrow> summary_response \<times> world" where
  "session_summary_server ev e w =
     (let rows = select_answers e w
      in if rows = [] then (NoAnswerData, w)
         else
           (let p = summary_prompt rows;
                w1 = w\<lparr>llm_calls := llm_calls w @ [p]\<rparr>
            in case callGroq ev p of
                 Inl x \<Rightarrow> (SummaryFailed, w1)
               | Inr aiText \<Rightarrow>
                   (let fs = read_reply_server ev aiText
                    in (Summary (fst fs) (snd fs), update_session e (fst fs) (snd fs) w1))))"

subsection \<open>The second server\<close>

text \<open>
  \<^verbatim>\<open>
  let total = 0;
  let count = 0;
  for (const ans of answers) {
    const scores = extractAllScores(ans.upload_feedback);
    for (const s of scores) { total += s; count++; }
  }
  const maxPossible = count * 5;
  const overallScore = count ? Math.round((total / maxPossible) * 100) : 0;
  \<close>
  The pair is \<open>(total, count)\<close>; sums and counts are far below \<open>2^53\<close>, where
  adding doubles is exact.
\<close>
fun tally :: "answer_row list \<Rightarrow> nat \<times> nat \<Rightarrow> (nat \<times> nat) option" where
  "tally [] acc = Some acc"
| "tally (ans # rest) acc =
     (case extractAllScores (upload_feedback ans) of
        None \<Rightarrow> None
      | Some scores \<Rightarrow> tally rest (foldl (\<lambda>tc s. (fst tc + s, snd tc + 1)) acc scores))"

definition overallScore :: "nat \<Rightarrow> nat \<Rightarrow> int" where
  "overallScore tot cnt =
     (let maxPossible = cnt * 5
      in if cnt \<noteq> 0 then Math_round (fmul (fdiv (dbl tot) (dbl maxPossible)) (dbl 100))
         else 0)"

text \<open>
  \<^verbatim>\<open>
  let feedback = aiText;
  try {
    const match = aiText.match(/\{[\s\S]*\}/m);
    if (match) {
      const json = JSON.parse(match[0]);
      feedback = json.feedback || feedback;
      // DO NOT use json.score, override below!
    }
  } catch (e) {}
  \<close>
\<close>
definition read_reply_second :: "env \<Rightarrow> string \<Rightarrow> jsval" where
  "read_reply_second ev aiText =
     (case js_match json_rx aiText of
        Some caps \<Rightarrow>
          (case JSON_parse ev (case map_of caps 0 of None \<Rightarrow> [] | Some m \<Rightarrow> m) of
             None \<Rightarrow> JString aiText
           | Some json \<Rightarrow> if truthy (fst json) then fst json else JString aiText)
      | None \<Rightarrow> JString aiText)"

text \<open>
  The handler of the second server; \<open>None\<close> when the scan of a verdict does not end.
  The statements that follow its \<open>try\<close> block (building \<open>detailedScores\<close> and sending a
  second body with it) read \<open>answers\<close>, \<open>feedback\<close> and \<open>overallScore\<close>, which are
  declared inside the \<open>try\<close> block: they throw a \<open>ReferenceError\<close> after the response
  below has been sent, so the body that reaches the caller is \<open>{feedback, score}\<close>.
\<close>
definition session_summary_second :: "env \<Rightarrow> string \<Rightarrow> world \<Rightarrow> (summary_response \<times> world) option" where
  "session_summary_second ev e w =
     (let rows = select_answers e w
      in if rows = [] then Some (NoAnswerData, w)
         else
           (case tally rows (0, 0) of
              None \<Rightarrow> None
            | Some tc \<Rightarrow>
                (let score = JNumber (of_int (overallScore (fst tc) (snd tc)));
                     p = summary_prompt rows;
                     w1 = w\<lparr>llm_calls := llm_calls w @ [p]\<rparr>
                 in case callGroq ev p of
                      Inl x \<Rightarrow> Some (SummaryFailed, w1)
                    | Inr aiText \<Rightarrow>
                        (let feedback = read_reply_second ev aiText
                         in Some (Summary feedback score, update_session e feedback score w1)))))"

text \<open>
  The scores parsed from all verdict texts, in the order of the rows (a scan that does
  not end contributes nothing; the scan of \<open>extractAllScores\<close> always ends).
\<close>
definition parsed_scores :: "answer_row list \<Rightarrow> nat list" where
  "parsed_scores rows =
     concat (map (\<lambda>ans. case extractAllScores (upload_feedback ans) of
                              None \<Rightarrow> [] | Some scores \<Rightarrow> scores) rows)"

section \<open>Example data\<close>

definition verdict :: "string \<Rightarrow> int \<Rightarrow> string \<Rightarrow> answer_row" where
  "verdict e q fb =
     \<lparr>email = e, question_number = q, answer = Some ''Yes'', upload_feedback = Some fb,
      skip_reason = None, updated_at = None\<rparr>"

definition store :: "answer_row list \<Rightarrow> (string \<times> string) list \<Rightarrow> string list \<Rightarrow> world" where
  "store rows names files =
     \<lparr>answers = rows, supplier_names = names, sessions = [], tmp_files = files, llm_calls = []\<rparr>"

text \<open>Collaborators that return fixed values: an extracted text and an LLM reply.\<close>
definition fixed_env :: "exn + string \<Rightarrow> exn + string \<Rightarrow> env" where
  "fixed_env extracted reply =
     \<lparr>extractText = (\<lambda>f lang. extracted), callGroq = (\<lambda>p. reply),
      JSON_parse = (\<lambda>s. None), now = ''2025-01-01T00:00:00.000Z''\<rparr>"

definition upload_request :: "string \<Rightarrow> string option \<Rightarrow> request" where
  "upload_request e q =
     \<lparr>req_file = Some \<lparr>path = ''tmp/upload1'', originalname = ''policy.txt''\<rparr>,
      body_email = e, questionNumber = q, userExplanation = None, ocrLang = None\<rparr>"

text \<open>The document of the onboarding scenario.\<close>
definition acme_policy :: string where
  "acme_policy = ''Our Company Name: Acme Corp'' @ [CHR 0x0A] @ ''We have a written OHS policy...''"

text \<open>A document that is white space only.\<close>
definition blank_page :: string where
  "blank_page = [CHR '' '', CHR 0x0A, CHR 0x09, CHR '' '']"

text \<open>Eight stored verdicts: seven of band Robust and one of band Warning.\<close>
definition eight_verdicts :: "answer_row list" where
  "eight_verdicts =
     map (\<lambda>q. verdict ''a@x.com'' q ''Score: Robust (3/5)'') [1, 2, 3, 4, 5, 6, 7] @
     [verdict ''a@x.com'' 8 ''Score: Warning (2/5)'']"

definition two_verdicts :: "answer_row list" where
  "two_verdicts =
     [verdict ''a@x.com'' 1 ''Score: Robust (3/5)'', verdict ''a@x.com'' 2 ''Score: Warning (2/5)'']"

definition metro_document :: string where
  "metro_document =
     ''Occupational Health and Safety Policy'' @ [CHR 0x0A] @ ''METRO TELWORKS'' @ [CHR 0x0A] @
     ''Approved by management.''"

definition beta_document :: string where
  "beta_document =
     ''Beta Industries'' @ [CHR 0x0A] @ ''Incident reporting procedure of Beta Industries.''"

text \<open>An LLM reply in the JSON form that the summary prompt asks for.\<close>
definition json_reply :: "string \<Rightarrow> string" where
  "json_reply n =
     ''{'' @ [CHR 0x22] @ ''feedback'' @ [CHR 0x22] @ '': '' @ [CHR 0x22] @ ''Sound policy.'' @
     [CHR 0x22] @ '', '' @ [CHR 0x22] @ ''score'' @ [CHR 0x22] @ '': '' @ n @ ''}''"

text \<open>
  Collaborators whose LLM replies with \<open>reply\<close>, and whose \<open>JSON.parse\<close> reads the two
  replies \<open>json_reply "90"\<close> and \<open>json_reply "10"\<close>.
\<close>
definition summary_env :: "string \<Rightarrow> env" where
  "summary_env reply =
     \<lparr>extractText = (\<lambda>f lang. Inr []), callGroq = (\<lambda>p. Inr reply),
      JSON_parse = (\<lambda>s. if s = json_reply ''90'' then Some (JString ''Sound policy.'', JNumber 90)
                          else if s = json_reply ''10'' then Some (JString ''Sound policy.'', JNumber 10)
                          else None),
      now = ''2025-01-01T00:00:00.000Z''\<rparr>"

section \<open>The words of the specification\<close>

text \<open>An occurrence of a word at an index of a text, in any casing.\<close>
definition occurs_at :: "string \<Rightarrow> string \<Rightarrow> nat \<Rightarrow> bool" where
  "occurs_at word s i = (toUpperCase (take (length word) (drop i s)) = toUpperCase word)"


definition band_names :: "string list" where
  "band_names = [''Stretch'', ''Commitment'', ''Robust'', ''Warning'', ''Offtrack'']"

text \<open>
  The overall percentage in the words of the specification: 0 if no score was parsed,
  else \<open>round(100 \<times> totalWeight / maxPossible)\<close> with \<open>maxPossible = count \<times> 5\<close>, in
  exact arithmetic.
\<close>
definition spec_overallPercent :: "nat list \<Rightarrow> int" where
  "spec_overallPercent scores =
     (if length scores = 0 then 0
      else round (100 * real (sum_list scores) / real (length scores * 5)))"

section \<open>Properties\<close>

subsection \<open>Auxiliary facts\<close>

lemma parseInt_one: "parseInt (Some ''1'') = Some 1"
  by code_simp

lemma parseInt_two: "parseInt (Some ''2'') = Some 2"
  by code_simp

lemma extract_acme: "extractCompanyName acme_policy = ''Acme Corp''"
  by code_simp

lemma acme_readable: "trim acme_policy \<noteq> []"
  by code_simp

lemma trim_blank:
  assumes "\<forall>c\<in>set txt. is_space c"
  shows "trim txt = []"
proof -
  have "dropWhile is_space txt = []"
    using assms by simp
  then show ?thesis
    unfolding trim_def by (simp only: rev.simps dropWhile.simps)
qed

lemma hasMatch_always: "hasMatch txt officialCompanyName"
  by (simp add: hasMatch_def candidateNames_def list_ex_iff)

subsection \<open>The scan for scores always ends\<close>

text \<open>
  A match never moves backwards in the subject, and a match of a pattern that starts
  with a literal character consumes at least that character. So every search of the
  loop in \<open>extractAllScores\<close> starts behind the one before, and the loop returns.
\<close>

lemma star_iter_le:
  assumes step: "\<And>s s'. s' \<in> set (f s) \<Longrightarrow> length (fst (snd s')) \<le> length (fst (snd s))"
  shows "st' \<in> set (star_iter n f st) \<Longrightarrow> length (fst (snd st')) \<le> length (fst (snd st))"
proof (induction n arbitrary: st)
  case 0
  then show ?case by simp
next
  case (Suc n)
  from Suc.prems consider "st' = st"
    | mid where "mid \<in> set (f st)" and "st' \<in> set (star_iter n f mid)"
    by auto
  then show ?case
  proof cases
    case 1
    then show ?thesis by simp
  next
    case 2
    then show ?thesis using Suc.IH [of mid] step [of mid st] by simp
  qed
qed

lemma rmatch_le:
  "st' \<in> set (rmatch r st) \<Longrightarrow> length (fst (snd st')) \<le> length (fst (snd st))"
proof (induction r arbitrary: st st')
  case (Atom p)
  then show ?case by (auto split: prod.splits list.splits if_splits)
next
  case (Seq a b)
  from Seq.prems obtain mid where "mid \<in> set (rmatch a st)" and "st' \<in> set (rmatch b mid)"
    by auto
  then show ?case using Seq.IH(1) [of mid st] Seq.IH(2) [of st' mid] by simp
next
  case (Star a)
  then show ?case using star_iter_le [of "rmatch a"] by simp
qed (auto split: if_splits)

lemma rmatch_atom_first:
  assumes "st' \<in> set (rmatch (Seq (Seq (Atom p) a) b) st)"
  shows "length (fst (snd st')) < length (fst (snd st))"
proof -
  from assms obtain m1 m2 where 1: "m1 \<in> set (rmatch (Atom p) st)"
    and 2: "m2 \<in> set (rmatch a m1)" and 3: "st' \<in> set (rmatch b m2)"
    by auto
  from 1 have "length (fst (snd m1)) < length (fst (snd st))"
    by (auto split: prod.splits list.splits if_splits)
  then show ?thesis using rmatch_le [OF 2] rmatch_le [OF 3] by simp
qed

lemma rx_search_found:
  "rx_search r pos s = Some (start, st) \<Longrightarrow>
     \<exists>k\<le>length s. st \<in> set (rmatch r (pos + k, drop k s, []))"
proof (induction s arbitrary: pos)
  case Nil
  then show ?case by (auto split: list.splits)
next
  case (Cons x xs)
  show ?case
  proof (cases "rmatch r (pos, x # xs, [])")
    case Nil
    with Cons.prems have "rx_search r (Suc pos) xs = Some (start, st)" by simp
    from Cons.IH [OF this] obtain k where "k \<le> length xs" and "st \<in> set (rmatch r (Suc pos + k, drop k xs, []))"
      by blast
    then have "Suc k \<le> length (x # xs) \<and> st \<in> set (rmatch r (pos + Suc k, drop (Suc k) (x # xs), []))"
      by simp
    then show ?thesis by blast
  next
    case (Cons m ms)
    with Cons.prems have "st = m" by simp
    with Cons have "st \<in> set (rmatch r (pos + 0, drop 0 (x # xs), []))" by simp
    then show ?thesis by blast
  qed
qed

lemma exec_loop_returns:
  "\<forall>s s'. s' \<in> set (rmatch r s) \<longrightarrow> length (fst (snd s')) < length (fst (snd s)) \<Longrightarrow>
   \<exists>scores. exec_loop r pos rest = Some scores"
proof (induction r pos rest rule: exec_loop.induct)
  case (1 r pos rest)
  note strict = "1.prems"
  show ?case
  proof (cases "rx_search r pos rest")
    case None
    then show ?thesis by (subst exec_loop.simps) simp
  next
    case (Some found)
    obtain start st where found: "found = (start, st)" by (cases found)
    from rx_search_found [of r pos rest start st] Some found
    obtain k where k: "k \<le> length rest" and m: "st \<in> set (rmatch r (pos + k, drop k rest, []))"
      by blast
    have "length (fst (snd st)) < length (drop k rest)"
      using strict [rule_format, OF m] by simp
    then have shorter: "length (fst (snd st)) < length rest"
      by simp
    from "1.IH" [OF Some found [symmetric] shorter strict]
    obtain scores where "exec_loop r (fst st) (fst (snd st)) = Some scores" by blast
    then show ?thesis using Some found shorter by (subst exec_loop.simps) simp
  qed
qed

lemma extractAllScores_returns: "\<exists>scores. extractAllScores t = Some scores"
proof -
  have "\<And>s s'. s' \<in> set (rmatch all_scores_rx s) \<Longrightarrow> length (fst (snd s')) < length (fst (snd s))"
    unfolding all_scores_rx_def seqs.simps lit.simps by (rule rmatch_atom_first)
  then have "\<exists>scores. exec_loop all_scores_rx 0 s = Some scores" for s
    using exec_loop_returns [of all_scores_rx 0 s] by blast
  then show ?thesis
    by (auto simp add: extractAllScores_def split: option.splits)
qed

lemma foldl_tally:
  "foldl (\<lambda>tc s. (fst tc + s, snd tc + 1)) (t :: nat, c :: nat) scores =
     (t + sum_list scores, c + length scores)"
  by (induction scores arbitrary: t c) simp_all

lemma tally_parsed:
  "tally rows (t, c) = Some (t + sum_list (parsed_scores rows), c + length (parsed_scores rows))"
proof (induction rows arbitrary: t c)
  case Nil
  then show ?case by (simp add: parsed_scores_def)
next
  case (Cons ans rows)
  obtain scores where sc: "extractAllScores (upload_feedback ans) = Some scores"
    using extractAllScores_returns by blast
  have "parsed_scores (ans # rows) = scores @ parsed_scores rows"
    by (simp add: parsed_scores_def sc)
  moreover have "tally (ans # rows) (t, c) = tally rows (t + sum_list scores, c + length scores)"
    by (simp only: tally.simps sc option.case foldl_tally)
  ultimately show ?case
    using Cons.IH [of "t + sum_list scores" "c + length scores"]
    by (simp add: add.assoc)
qed

subsection \<open>What a match of the single-score pattern consumes\<close>

text \<open>
  Each piece of a pattern consumes a word of the subject: an atom one character of its
  class, a starred atom a run of such characters, a literal a word equal to it up to
  case, a group the word of its body, which it records. A match of the single-score
  pattern therefore consumes \<open>Score:\<close>, white space, a band name, white space, \<open>(\<close>,
  one digit and \<open>/5)\<close>, and group 2 holds the digit.
\<close>

lemma atom_step:
  assumes "st' \<in> set (rmatch (Atom p) (pos, s, c))"
  shows "\<exists>x. s = x # fst (snd st') \<and> p x \<and> fst st' = Suc pos \<and> snd (snd st') = c"
  using assms by (auto split: list.splits if_splits)




lemma lit_step:
  "st' \<in> set (rmatch (lit eq pat) (pos, s, c)) \<Longrightarrow>
   \<exists>w. s = w @ fst (snd st') \<and> list_all2 eq pat w \<and> fst st' = pos + length w \<and> snd (snd st') = c"
proof (induction eq pat arbitrary: pos s rule: lit.induct)
  case (1 eq)
  then show ?case by simp
next
  case (2 eq a)
  from atom_step [of st' "eq a" pos s c] 2 obtain x where "s = x # fst (snd st')" "eq a x" "fst st' = Suc pos" "snd (snd st') = c"
    by auto
  then have "s = [x] @ fst (snd st') \<and> list_all2 eq [a] [x] \<and> fst st' = pos + length [x] \<and> snd (snd st') = c"
    by simp
  then show ?case by blast
next
  case (3 eq a b bs)
  from "3.prems" obtain mid where m1: "mid \<in> set (rmatch (Atom (eq a)) (pos, s, c))"
    and m2: "st' \<in> set (rmatch (lit eq (b # bs)) mid)"
    by auto
  from atom_step [OF m1] obtain x where x: "s = x # fst (snd mid)" "eq a x" "fst mid = Suc pos" "snd (snd mid) = c"
    by blast
  then have mid: "mid = (Suc pos, fst (snd mid), c)"
    by (metis prod.collapse)
  from m2 have "st' \<in> set (rmatch (lit eq (b # bs)) (Suc pos, fst (snd mid), c))"
    using mid by simp
  from "3.IH" [OF this] obtain w where w: "fst (snd mid) = w @ fst (snd st')" "list_all2 eq (b # bs) w"
    "fst st' = Suc pos + length w" "snd (snd st') = c"
    by blast
  have "s = (x # w) @ fst (snd st') \<and> list_all2 eq (a # b # bs) (x # w) \<and> fst st' = pos + length (x # w) \<and> snd (snd st') = c"
    using x w by simp
  then show ?case by blast
qed

lemma nocase_word: "list_all2 nocase pat w \<Longrightarrow> toUpperCase w = toUpperCase pat"
  by (induction pat w rule: list_all2_induct) (simp_all add: nocase_def toUpperCase_def)




lemma lit_stepE:
  assumes "st' \<in> set (rmatch (lit eq pat) (pos, s, c))"
  obtains w r where "s = w @ r" and "list_all2 eq pat w" and "st' = (pos + length w, r, c)"
proof -
  from lit_step [OF assms] obtain w where "s = w @ fst (snd st')" "list_all2 eq pat w"
    "fst st' = pos + length w" "snd (snd st') = c"
    by blast
  moreover from this have "st' = (pos + length w, fst (snd st'), c)"
    by (metis prod.collapse)
  ultimately show ?thesis
    using that by blast
qed

lemma seq_stepE:
  assumes "st' \<in> set (rmatch (Seq a b) st)"
  obtains mid where "mid \<in> set (rmatch a st)" and "st' \<in> set (rmatch b mid)"
  using assms by auto


lemma alt_stepE:
  assumes "st' \<in> set (rmatch (Alt a b) st)"
  obtains "st' \<in> set (rmatch a st)" | "st' \<in> set (rmatch b st)"
  using assms by auto






subsection \<open>Searching for the multi-score pattern\<close>

text \<open>
  The two matches of the example, with any text behind them; a match of the multi-score
  pattern starts with \<open>Score:\<close> in some casing; and a search skips the indices at
  which the pattern does not match.
\<close>

lemma example_chars:
  "nocase CHR ''S'' CHR ''S''" "nocase CHR ''c'' CHR ''c''" "nocase CHR ''o'' CHR ''o''"
  "nocase CHR ''r'' CHR ''r''" "nocase CHR ''e'' CHR ''e''" "nocase CHR '':'' CHR '':''"
  "\<not> is_space CHR ''S''" "is_word CHR ''S''" "\<not> is_digit CHR ''S''"
  "\<not> is_space CHR ''c''" "is_word CHR ''c''" "\<not> is_digit CHR ''c''"
  "\<not> is_space CHR ''o''" "is_word CHR ''o''" "\<not> is_digit CHR ''o''"
  "\<not> is_space CHR ''r''" "is_word CHR ''r''" "\<not> is_digit CHR ''r''"
  "\<not> is_space CHR ''e''" "is_word CHR ''e''" "\<not> is_digit CHR ''e''"
  "\<not> is_space CHR '':''" "\<not> is_word CHR '':''" "\<not> is_digit CHR '':''"
  "is_space CHR '' ''" "\<not> is_word CHR '' ''" "\<not> is_digit CHR '' ''"
  "\<not> is_space CHR ''R''" "is_word CHR ''R''" "\<not> is_digit CHR ''R''"
  "\<not> is_space CHR ''b''" "is_word CHR ''b''" "\<not> is_digit CHR ''b''"
  "\<not> is_space CHR ''u''" "is_word CHR ''u''" "\<not> is_digit CHR ''u''"
  "\<not> is_space CHR ''s''" "is_word CHR ''s''" "\<not> is_digit CHR ''s''"
  "\<not> is_space CHR ''t''" "is_word CHR ''t''" "\<not> is_digit CHR ''t''"
  "\<not> is_space CHR ''(''" "\<not> is_word CHR ''(''" "\<not> is_digit CHR ''(''"
  "\<not> is_space CHR ''3''" "is_word CHR ''3''" "is_digit CHR ''3''"
  "\<not> is_space CHR ''/''" "\<not> is_word CHR ''/''" "\<not> is_digit CHR ''/''"
  "\<not> is_space CHR ''5''" "is_word CHR ''5''" "is_digit CHR ''5''"
  "\<not> is_space CHR '')''" "\<not> is_word CHR '')''" "\<not> is_digit CHR '')''"
  "\<not> is_space CHR ''2''" "is_word CHR ''2''" "is_digit CHR ''2''"
  by code_simp+

lemma match_robust:
  "rmatch all_scores_rx (p, ''Score: Robust (3/5)'' @ rest, []) \<noteq> [] \<and>
   hd (rmatch all_scores_rx (p, ''Score: Robust (3/5)'' @ rest, [])) = (p + 19, rest, [(1, ''3'')])"
  by (simp add: all_scores_rx_def Opt_def Plus_def Rep13_def exact_def example_chars)

lemma match_bare:
  "rmatch all_scores_rx (p, ''Score: 2/5'' @ rest, []) \<noteq> [] \<and>
   (\<exists>k\<le>length rest. hd (rmatch all_scores_rx (p, ''Score: 2/5'' @ rest, [])) =
       (p + 10 + k, drop k rest, [(1, ''2'')]))"
proof (cases rest)
  case Nil
  then show ?thesis
    by (simp add: all_scores_rx_def Opt_def Plus_def Rep13_def exact_def example_chars)
next
  case (Cons x xs)
  show ?thesis
  proof (cases "x = CHR '')''")
    case True
    have "rmatch all_scores_rx (p, ''Score: 2/5'' @ rest, []) \<noteq> [] \<and>
          hd (rmatch all_scores_rx (p, ''Score: 2/5'' @ rest, [])) = (p + 10 + 1, drop 1 rest, [(1, ''2'')])"
      using Cons True
      by (simp add: all_scores_rx_def Opt_def Plus_def Rep13_def exact_def example_chars)
    moreover have "1 \<le> length rest" using Cons by simp
    ultimately show ?thesis by blast
  next
    case False
    have "rmatch all_scores_rx (p, ''Score: 2/5'' @ rest, []) \<noteq> [] \<and>
          hd (rmatch all_scores_rx (p, ''Score: 2/5'' @ rest, [])) = (p + 10 + 0, drop 0 rest, [(1, ''2'')])"
      using Cons False
      by (simp add: all_scores_rx_def Opt_def Plus_def Rep13_def exact_def example_chars)
    then show ?thesis by blast
  qed
qed

lemma all_scores_match_starts:
  assumes "rmatch all_scores_rx (p, s, c) \<noteq> []"
  shows "occurs_at ''Score:'' s 0"
proof -
  from assms obtain st' where "st' \<in> set (rmatch all_scores_rx (p, s, c))"
    by (cases "rmatch all_scores_rx (p, s, c)") auto
  then obtain m1 where "m1 \<in> set (rmatch (lit nocase ''Score:'') (p, s, c))"
    unfolding all_scores_rx_def seqs.simps by (rule seq_stepE)
  then obtain w r where w: "s = w @ r" "list_all2 nocase ''Score:'' w"
    by (rule lit_stepE)
  from w(2) have len: "length w = 6"
    by (simp add: list_all2_lengthD [symmetric])
  have "toUpperCase w = toUpperCase ''Score:''"
    using w(2) by (rule nocase_word)
  then show ?thesis
    using w(1) len by (simp add: occurs_at_def)
qed

lemma search_skip:
  "k \<le> length s \<Longrightarrow> \<forall>i<k. rmatch r (pos + i, drop i s, []) = [] \<Longrightarrow>
   rx_search r pos s = rx_search r (pos + k) (drop k s)"
proof (induction k arbitrary: pos s)
  case 0
  then show ?case by simp
next
  case (Suc k)
  then obtain x xs where s: "s = x # xs" by (cases s) auto
  from Suc.prems(2) have first: "rmatch r (pos, s, []) = []"
    by (metis add.right_neutral drop0 zero_less_Suc)
  have rest: "\<forall>i<k. rmatch r (Suc pos + i, drop i xs, []) = []"
  proof (intro allI impI)
    fix i assume "i < k"
    then have "rmatch r (pos + Suc i, drop (Suc i) s, []) = []"
      using Suc.prems(2) by (metis Suc_less_eq)
    then show "rmatch r (Suc pos + i, drop i xs, []) = []"
      using s by simp
  qed
  have "rx_search r pos s = rx_search r (Suc pos) xs"
    using first s by simp
  also have "\<dots> = rx_search r (Suc pos + k) (drop k xs)"
    using Suc.IH [of xs "Suc pos"] Suc.prems(1) rest s by simp
  finally show ?case
    using s by simp
qed

lemma search_none:
  "\<forall>i\<le>length s. rmatch r (pos + i, drop i s, []) = [] \<Longrightarrow> rx_search r pos s = None"
proof (induction s arbitrary: pos)
  case Nil
  then show ?case by simp
next
  case (Cons x xs)
  from Cons.prems have first: "rmatch r (pos, x # xs, []) = []"
    by (metis add.right_neutral drop0 le0)
  have "\<forall>i\<le>length xs. rmatch r (Suc pos + i, drop i xs, []) = []"
  proof (intro allI impI)
    fix i assume "i \<le> length xs"
    then have "rmatch r (pos + Suc i, drop (Suc i) (x # xs), []) = []"
      using Cons.prems by (metis Suc_le_mono length_Cons)
    then show "rmatch r (Suc pos + i, drop i xs, []) = []"
      by simp
  qed
  from Cons.IH [OF this] show ?case
    using first by simp
qed

lemma search_here:
  assumes "rmatch r (pos, s, []) \<noteq> []"
  shows "rx_search r pos s = Some (pos, hd (rmatch r (pos, s, [])))"
  using assms by (cases s; cases "rmatch r (pos, s, [])") simp_all

subsection \<open>Normalizing a document\<close>

text \<open>
  Replacing every character of a class by nothing is a filter, so the normal form of a
  document is the concatenation of the normal forms of its parts; and a text includes
  what a part of it includes.
\<close>

lemma replace_atom:
  "replace_all (Atom p) [] pos s = filter (\<lambda>c. \<not> p c) s"
  by (induction s arbitrary: pos) simp_all

lemma docTextNorm_append:
  "docTextNorm (a @ b) = docTextNorm a @ docTextNorm b"
  by (simp add: docTextNorm_def non_alnum_space_rx_def replace_atom toLowerCase_def)

lemma starts_with_append: "starts_with w b \<Longrightarrow> starts_with w (b @ c)"
  by (induction w b rule: starts_with.induct) simp_all

lemma includes_suffix: "str_includes s w \<Longrightarrow> str_includes (a @ s) w"
  by (induction a) simp_all

lemma includes_prefix: "str_includes b w \<Longrightarrow> str_includes (b @ c) w"
proof (induction b)
  case Nil
  then show ?case by (cases w; cases c) simp_all
next
  case (Cons x xs)
  then show ?case using starts_with_append [of w "x # xs" c] by auto
qed

subsection \<open>Rounding in double precision\<close>

text \<open>
  \<open>fl n d\<close> differs from \<open>n / d\<close> by at most the fraction \<open>2^-53\<close> of it. Two roundings
  (the quotient, then the product with 100) cannot move the percentage across a
  rounding boundary unless it lies on one: off the ties, \<open>overallScore\<close> is the exact
  percentage rounded to the nearest integer.
\<close>

lemma bit_length_bounds:
  "0 < n \<Longrightarrow> 1 \<le> bit_length n \<and> 2 ^ nat (bit_length n - 1) \<le> n \<and> n < 2 ^ nat (bit_length n)"
proof (induction n rule: bit_length.induct)
  case (1 n)
  show ?case
  proof (cases "n div 2 = 0")
    case True
    with "1.prems" have "n = 1" by presburger
    then show ?thesis by (simp add: bit_length.simps [of 1] bit_length.simps [of 0])
  next
    case False
    with "1.prems" have pos: "0 < n div 2" by presburger
    from "1.prems" have nle: "\<not> n \<le> 0" by simp
    from "1.IH" [OF nle pos] have b1: "1 \<le> bit_length (n div 2)"
      and lo: "2 ^ nat (bit_length (n div 2) - 1) \<le> n div 2"
      and hi: "n div 2 < 2 ^ nat (bit_length (n div 2))"
      by simp_all
    have eq: "bit_length n = 1 + bit_length (n div 2)"
      using nle by (subst bit_length.simps) simp
    have p: "(2::int) ^ nat (bit_length (n div 2)) = 2 * 2 ^ nat (bit_length (n div 2) - 1)"
      using b1 by (metis Suc_nat_eq_nat_zadd1 add.commute diff_add_cancel diff_ge_0_iff_ge power_Suc)
    have "2 ^ nat (bit_length (n div 2)) \<le> n"
      using lo p by presburger
    moreover have "n < 2 * 2 ^ nat (bit_length (n div 2))"
      using hi by presburger
    moreover have "nat (bit_length n) = Suc (nat (bit_length (n div 2)))"
      using eq b1 by simp
    moreover have "nat (bit_length n - 1) = nat (bit_length (n div 2))"
      using eq by simp
    ultimately show ?thesis using eq b1 by simp
  qed
qed

lemma rne_error:
  assumes "0 < d"
  shows "\<bar>real_of_int (rne n d) - real_of_int n / real_of_int d\<bar> \<le> 1 / 2"
proof -
  define q where "q = n div d"
  define r where "r = n mod d"
  have n: "n = q * d + r" and r0: "0 \<le> r" and rd: "r < d"
    using assms by (simp_all add: q_def r_def)
  have quot: "real_of_int n / real_of_int d = real_of_int q + real_of_int r / real_of_int d"
    using assms n by (simp add: field_simps)
  have frac0: "0 \<le> real_of_int r / real_of_int d" using r0 assms by simp
  have frac1: "real_of_int r / real_of_int d < 1" using rd assms by simp
  consider "2 * r < d" | "2 * r > d" | "2 * r = d" by linarith
  then show ?thesis
  proof cases
    case 1
    then have "rne n d = q" by (simp add: rne_def q_def r_def Let_def)
    moreover have "real_of_int r / real_of_int d < 1 / 2"
      using 1 assms by (simp add: field_simps)
    ultimately show ?thesis using quot frac0 by simp
  next
    case 2
    then have "rne n d = q + 1" by (simp add: rne_def q_def r_def Let_def)
    moreover have "real_of_int r / real_of_int d > 1 / 2"
      using 2 assms by (simp add: field_simps)
    ultimately show ?thesis using quot frac1 by simp
  next
    case 3
    then have "rne n d = q \<or> rne n d = q + 1" by (simp add: rne_def q_def r_def Let_def)
    moreover have "real_of_int r / real_of_int d = 1 / 2"
      using 3 assms by (simp add: field_simps)
    ultimately show ?thesis using quot by auto
  qed
qed


lemma le_div_int: "0 < (D::int) \<Longrightarrow> c * D \<le> N \<Longrightarrow> c \<le> N div D"
  using zdiv_mono1 by fastforce

lemma rne_scaled:
  assumes D: "0 < D" and lower: "2 ^ 52 * D \<le> N" and k: "0 < k"
  shows "0 < rne N D \<and>
         \<bar>real_of_int (rne N D) * k - real_of_int N / real_of_int D * k\<bar>
           \<le> real_of_int N / real_of_int D * k / 2 ^ 53"
proof -
  have q: "2 ^ 52 \<le> N div D"
    using le_div_int [OF D, of "2 ^ 52" N] lower by simp
  have "N div D \<le> rne N D"
    by (simp add: rne_def Let_def)
  moreover have "(0::int) < 2 ^ 52"
    by simp
  ultimately have pos: "0 < rne N D"
    using q by linarith
  have "real_of_int (2 ^ 52 * D) \<le> real_of_int N"
    using lower by linarith
  then have big: "2 ^ 52 \<le> real_of_int N / real_of_int D"
    using D by (simp add: field_simps)
  have "\<bar>real_of_int (rne N D) - real_of_int N / real_of_int D\<bar> \<le> 1 / 2"
    using D by (rule rne_error)
  also have "\<dots> \<le> real_of_int N / real_of_int D / 2 ^ 53"
    using big by simp
  finally have e: "\<bar>real_of_int (rne N D) - real_of_int N / real_of_int D\<bar>
                     \<le> real_of_int N / real_of_int D / 2 ^ 53" .
  have "\<bar>real_of_int (rne N D) - real_of_int N / real_of_int D\<bar> * k
          \<le> real_of_int N / real_of_int D / 2 ^ 53 * k"
    by (rule mult_right_mono [OF e]) (use k in simp)
  moreover have "\<bar>real_of_int (rne N D) - real_of_int N / real_of_int D\<bar> * k =
                 \<bar>real_of_int (rne N D) * k - real_of_int N / real_of_int D * k\<bar>"
    using k by (simp add: abs_mult_pos left_diff_distrib)
  moreover have "real_of_int N / real_of_int D / 2 ^ 53 * k =
                 real_of_int N / real_of_int D * k / 2 ^ 53"
    by simp
  ultimately have "\<bar>real_of_int (rne N D) * k - real_of_int N / real_of_int D * k\<bar>
                     \<le> real_of_int N / real_of_int D * k / 2 ^ 53"
    by (simp only:)
  then show ?thesis
    using pos by blast
qed


lemma pow_step: "1 \<le> (s::int) \<Longrightarrow> (2::'a::comm_semiring_1) ^ nat s = 2 * 2 ^ nat (s - 1)"
proof -
  assume "1 \<le> s"
  then have "nat s = Suc (nat (s - 1))"
    by linarith
  then show ?thesis
    by simp
qed

lemma fl_lower_up:
  assumes n: "0 < n" and d: "0 < d" and s: "0 \<le> 53 - (bit_length n - bit_length d)"
  shows "2 ^ 52 * d \<le> n * 2 ^ nat (53 - (bit_length n - bit_length d))"
proof -
  let ?bn = "bit_length n" and ?bd = "bit_length d"
  let ?s = "53 - (?bn - ?bd)"
  from bit_length_bounds [OF n] have bn1: "1 \<le> ?bn" and nlo: "2 ^ nat (?bn - 1) \<le> n"
    by simp_all
  from bit_length_bounds [OF d] have bd1: "1 \<le> ?bd" and dhi: "d < 2 ^ nat ?bd"
    by simp_all
  have ex: "nat (?bn - 1) + nat ?s = 52 + nat ?bd"
    using s bn1 bd1 by linarith
  have "(2::int) ^ 52 * d \<le> 2 ^ 52 * 2 ^ nat ?bd"
    using dhi by (intro mult_left_mono) simp_all
  also have "\<dots> = 2 ^ (52 + nat ?bd)"
    by (simp only: power_add)
  also have "\<dots> = 2 ^ (nat (?bn - 1) + nat ?s)"
    by (simp only: ex)
  also have "\<dots> = 2 ^ nat (?bn - 1) * 2 ^ nat ?s"
    by (simp only: power_add)
  also have "\<dots> \<le> n * 2 ^ nat ?s"
    using nlo by (intro mult_right_mono) simp_all
  finally show ?thesis .
qed

lemma fl_lower_down:
  assumes n: "0 < n" and d: "0 < d" and s: "\<not> 0 \<le> 53 - (bit_length n - bit_length d)"
  shows "2 ^ 52 * (d * 2 ^ nat (- (53 - (bit_length n - bit_length d)))) \<le> n"
proof -
  let ?bn = "bit_length n" and ?bd = "bit_length d"
  let ?s = "53 - (?bn - ?bd)"
  from bit_length_bounds [OF n] have bn1: "1 \<le> ?bn" and nlo: "2 ^ nat (?bn - 1) \<le> n"
    by simp_all
  from bit_length_bounds [OF d] have bd1: "1 \<le> ?bd" and dhi: "d < 2 ^ nat ?bd"
    by simp_all
  have ex: "52 + (nat ?bd + nat (- ?s)) = nat (?bn - 1)"
    using s bn1 bd1 by linarith
  have "d * 2 ^ nat (- ?s) \<le> 2 ^ nat ?bd * 2 ^ nat (- ?s)"
    using dhi by (intro mult_right_mono) simp_all
  then have "(2::int) ^ 52 * (d * 2 ^ nat (- ?s)) \<le> 2 ^ 52 * (2 ^ nat ?bd * 2 ^ nat (- ?s))"
    by (intro mult_left_mono) simp_all
  also have "\<dots> = 2 ^ (52 + (nat ?bd + nat (- ?s)))"
    by (simp only: power_add)
  also have "\<dots> = 2 ^ nat (?bn - 1)"
    by (simp only: ex)
  also have "\<dots> \<le> n"
    using nlo .
  finally show ?thesis .
qed

lemma fl_finish:
  assumes D: "0 < D" and lower: "2 ^ 52 * D \<le> N" and k: "0 < k"
    and b: "0 < b"
    and a: "0 < rne N D \<Longrightarrow> 0 < a"
    and val: "real_of_int a / real_of_int b = real_of_int (rne N D) * k"
    and quot: "real_of_int n / real_of_int d = real_of_int N / real_of_int D * k"
  shows "0 < a \<and> 0 < b \<and>
         \<bar>real_of_int a / real_of_int b - real_of_int n / real_of_int d\<bar>
           \<le> real_of_int n / real_of_int d / 2 ^ 53"
  using rne_scaled [OF D lower k] a b by (simp only: val quot)

lemma fl_error:
  assumes n: "0 < n" and d: "0 < d"
  shows "0 < fst (fl n d) \<and> 0 < snd (fl n d) \<and>
         \<bar>real_of_int (fst (fl n d)) / real_of_int (snd (fl n d)) - real_of_int n / real_of_int d\<bar>
           \<le> real_of_int n / real_of_int d / 2 ^ 53"
proof -
  let ?s = "53 - (bit_length n - bit_length d)"
  show ?thesis
  proof (cases "0 \<le> ?s")
    case s0: True
    let ?N = "n * 2 ^ nat ?s"
    have lower: "2 ^ 52 * d \<le> ?N"
      using n d s0 by (rule fl_lower_up)
    show ?thesis
    proof (cases "2 ^ 53 * d \<le> ?N")
      case False
      have v: "fl n d = (rne ?N d, 2 ^ nat ?s)"
        using n s0 False unfolding fl_def Let_def by simp
      have q: "real_of_int n / real_of_int d = real_of_int ?N / real_of_int d * (1 / 2 ^ nat ?s)"
        by simp
      show ?thesis
        unfolding v fst_conv snd_conv
        by (rule fl_finish [OF d lower _ _ _ _ q]) simp_all
    next
      case big: True
      have lower2: "2 ^ 52 * (2 * d) \<le> ?N"
        using big by simp
      have d2: "0 < 2 * d"
        using d by simp
      show ?thesis
      proof (cases "0 \<le> ?s - 1")
        case True
        have v: "fl n d = (rne ?N (2 * d), 2 ^ nat (?s - 1))"
          using n s0 big True unfolding fl_def Let_def by simp
        have p: "(2::real) ^ nat ?s = 2 * 2 ^ nat (?s - 1)"
          using True by (intro pow_step) linarith
        have q: "real_of_int n / real_of_int d =
                 real_of_int ?N / real_of_int (2 * d) * (1 / 2 ^ nat (?s - 1))"
          by (simp add: p)
        show ?thesis
          unfolding v fst_conv snd_conv
          by (rule fl_finish [OF d2 lower2 _ _ _ _ q]) simp_all
      next
        case False
        then have sz: "?s = 0"
          using s0 by linarith
        have v: "fl n d = (rne ?N (2 * d) * 2 ^ nat (- (?s - 1)), 1)"
          using n s0 big False unfolding fl_def Let_def by simp
        have q: "real_of_int n / real_of_int d =
                 real_of_int ?N / real_of_int (2 * d) * 2 ^ nat (- (?s - 1))"
          by (simp add: sz)
        show ?thesis
          unfolding v fst_conv snd_conv
          by (rule fl_finish [OF d2 lower2 _ _ _ _ q]) simp_all
      qed
    qed
  next
    case sneg: False
    let ?D = "d * 2 ^ nat (- ?s)"
    have Dpos: "0 < ?D"
      using d by simp
    have lower: "2 ^ 52 * ?D \<le> n"
      using n d sneg by (rule fl_lower_down)
    show ?thesis
    proof (cases "2 ^ 53 * ?D \<le> n")
      case False
      have v: "fl n d = (rne n ?D * 2 ^ nat (- ?s), 1)"
        using n sneg False unfolding fl_def Let_def by simp
      have q: "real_of_int n / real_of_int d = real_of_int n / real_of_int ?D * 2 ^ nat (- ?s)"
        by simp
      show ?thesis
        unfolding v fst_conv snd_conv
        by (rule fl_finish [OF Dpos lower _ _ _ _ q]) simp_all
    next
      case big: True
      have lower2: "2 ^ 52 * (2 * ?D) \<le> n"
        using big by simp
      have D2: "0 < 2 * ?D"
        using Dpos by simp
      have sm: "\<not> 0 \<le> ?s - 1"
        using sneg by linarith
      have v: "fl n d = (rne n (2 * ?D) * 2 ^ nat (- (?s - 1)), 1)"
        using n sneg big sm unfolding fl_def Let_def by simp
      have "1 \<le> - (?s - 1)"
        using sneg by linarith
      then have "(2::real) ^ nat (- (?s - 1)) = 2 * 2 ^ nat (- (?s - 1) - 1)"
        by (rule pow_step)
      moreover have "- (?s - 1) - 1 = - ?s"
        by simp
      ultimately have p: "(2::real) ^ nat (- (?s - 1)) = 2 * 2 ^ nat (- ?s)"
        by (simp only:)
      have q: "real_of_int n / real_of_int d =
               real_of_int n / real_of_int (2 * ?D) * 2 ^ nat (- (?s - 1))"
        by (simp only: p) simp
      show ?thesis
        unfolding v fst_conv snd_conv
        by (rule fl_finish [OF D2 lower2 _ _ _ _ q]) simp_all
    qed
  qed
qed

lemma Math_round_floor:
  assumes "0 < b"
  shows "Math_round (a, b) = \<lfloor>real_of_int a / real_of_int b + 1 / 2\<rfloor>"
proof -
  have "real_of_int a / real_of_int b + 1 / 2 = real_of_int (2 * a + b) / real_of_int (2 * b)"
    using assms by (simp add: field_simps)
  then show ?thesis
    by (simp only: Math_round_def fst_conv snd_conv floor_divide_of_int_eq)
qed

lemma near_round:
  fixes v y :: real
  assumes m: "0 < m"
    and int_y: "y * real_of_int (2 * m) = real_of_int T"
    and notie: "T mod (2 * m) \<noteq> m"
    and close: "\<bar>v - y\<bar> < 1 / real_of_int (2 * m)"
  shows "\<lfloor>v + 1 / 2\<rfloor> = \<lfloor>y + 1 / 2\<rfloor>"
proof -
  define k where "k = \<lfloor>y + 1 / 2\<rfloor>"
  have mr: "0 < real_of_int (2 * m)" using m by simp
  have y: "y = real_of_int T / real_of_int (2 * m)"
    using int_y mr by (simp add: field_simps)
  have k1: "real_of_int k \<le> y + 1 / 2" and k2: "y + 1 / 2 < real_of_int k + 1"
    unfolding k_def by linarith+
  have "real_of_int k * real_of_int (2 * m) \<le> (y + 1 / 2) * real_of_int (2 * m)"
    using k1 mr by (intro mult_right_mono) simp_all
  then have "real_of_int (k * (2 * m)) \<le> real_of_int (T + m)"
    using int_y by (simp add: distrib_right)
  then have i1: "k * (2 * m) \<le> T + m" by linarith
  have "(y + 1 / 2) * real_of_int (2 * m) < (real_of_int k + 1) * real_of_int (2 * m)"
    using k2 mr by (intro mult_strict_right_mono) simp_all
  then have "real_of_int (T + m) < real_of_int ((k + 1) * (2 * m))"
    using int_y by (simp add: distrib_right)
  then have i2: "T + m < (k + 1) * (2 * m)" by linarith
  have "T \<noteq> (k - 1) * (2 * m) + m"
  proof
    assume "T = (k - 1) * (2 * m) + m"
    then have "T mod (2 * m) = m mod (2 * m)" by simp
    also have "\<dots> = m" using m by simp
    finally show False using notie by simp
  qed
  then have i1': "k * (2 * m) - m + 1 \<le> T"
    using i1 by (simp add: algebra_simps)
  have i2': "T \<le> k * (2 * m) + m - 1"
    using i2 by (simp add: algebra_simps)
  have lo: "real_of_int k - 1 / 2 + 1 / real_of_int (2 * m) \<le> y"
  proof -
    have "real_of_int (k * (2 * m) - m + 1) \<le> real_of_int T" using i1' by linarith
    then have "real_of_int (k * (2 * m) - m + 1) / real_of_int (2 * m) \<le> y"
      unfolding y using mr by (simp add: divide_right_mono)
    moreover have "real_of_int (k * (2 * m) - m + 1) / real_of_int (2 * m) =
                   real_of_int k - 1 / 2 + 1 / real_of_int (2 * m)"
      using m by (simp add: field_simps)
    ultimately show ?thesis by simp
  qed
  have hi: "y \<le> real_of_int k + 1 / 2 - 1 / real_of_int (2 * m)"
  proof -
    have "real_of_int T \<le> real_of_int (k * (2 * m) + m - 1)" using i2' by linarith
    then have "y \<le> real_of_int (k * (2 * m) + m - 1) / real_of_int (2 * m)"
      unfolding y using mr by (simp add: divide_right_mono)
    moreover have "real_of_int (k * (2 * m) + m - 1) / real_of_int (2 * m) =
                   real_of_int k + 1 / 2 - 1 / real_of_int (2 * m)"
      using m by (simp add: field_simps)
    ultimately show ?thesis by simp
  qed
  have "real_of_int k \<le> v + 1 / 2" and "v + 1 / 2 < real_of_int k + 1"
    using lo hi close by linarith+
  then have "\<lfloor>v + 1 / 2\<rfloor> = k" by linarith
  then show ?thesis by (simp add: k_def)
qed

lemma overallScore_rounds:
  assumes cnt: "0 < cnt" and small: "tot < 2 ^ 40"
    and notie: "(200 * int tot) mod (10 * int cnt) \<noteq> 5 * int cnt"
  shows "overallScore tot cnt = round (100 * real tot / real (cnt * 5))"
proof (cases "tot = 0")
  case True
  have "fl 0 (int cnt * 5) = (0, 1)" and "fl 0 1 = (0, 1)"
    by (simp_all add: fl_def)
  then have "overallScore 0 cnt = 0"
    using cnt by (simp add: overallScore_def Let_def fdiv_def fmul_def dbl_def Math_round_def)
  then show ?thesis
    using True by simp
next
  case False
  define m where "m = 5 * int cnt"
  define y where "y = 100 * real tot / real_of_int m"
  define a1 where "a1 = fst (fl (int tot) m)"
  define b1 where "b1 = snd (fl (int tot) m)"
  define a2 where "a2 = fst (fl (a1 * 100) b1)"
  define b2 where "b2 = snd (fl (a1 * 100) b1)"
  define v where "v = real_of_int a2 / real_of_int b2"
  have m: "0 < m" using cnt by (simp add: m_def)
  have t: "0 < int tot" using False by simp
  have y0: "0 \<le> y" using m by (simp add: y_def)
  from fl_error [OF t m] have a1: "0 < a1" and b1: "0 < b1"
    and e1: "\<bar>real_of_int a1 / real_of_int b1 - real tot / real_of_int m\<bar>
               \<le> real tot / real_of_int m / 2 ^ 53"
    by (simp_all add: a1_def b1_def)
  have a100: "0 < a1 * 100" using a1 by simp
  from fl_error [OF a100 b1] have b2: "0 < b2"
    and e2: "\<bar>v - real_of_int (a1 * 100) / real_of_int b1\<bar>
               \<le> real_of_int (a1 * 100) / real_of_int b1 / 2 ^ 53"
    by (simp_all add: a2_def b2_def v_def)
  define u where "u = real_of_int a1 / real_of_int b1"
  define x where "x = real tot / real_of_int m"
  have x0: "0 \<le> x" using m by (simp add: x_def)
  have yx: "y = 100 * x" by (simp add: y_def x_def)
  have e1': "\<bar>u - x\<bar> \<le> x / 2 ^ 53" using e1 by (simp add: u_def x_def)
  have "real_of_int (a1 * 100) / real_of_int b1 = 100 * u"
    by (simp add: u_def)
  then have e2': "\<bar>v - 100 * u\<bar> \<le> 100 * u / 2 ^ 53"
    using e2 by (simp only:)
  have "u \<le> x + x / 2 ^ 53" using e1' by linarith
  also have "\<dots> \<le> 2 * x" using x0 by (simp add: field_simps)
  finally have u2: "u \<le> 2 * x" .
  have "v - y = (v - 100 * u) + 100 * (u - x)"
    by (simp add: yx)
  then have tri: "\<bar>v - y\<bar> \<le> \<bar>v - 100 * u\<bar> + \<bar>100 * (u - x)\<bar>"
    by (simp only: abs_triangle_ineq)
  have hundred: "\<bar>100 * (u - x)\<bar> = 100 * \<bar>u - x\<bar>"
    by (simp only: abs_mult)
  have "\<bar>v - y\<bar> \<le> \<bar>v - 100 * u\<bar> + 100 * \<bar>u - x\<bar>"
    using tri by (simp only: hundred)
  also have "\<dots> \<le> 100 * u / 2 ^ 53 + 100 * (x / 2 ^ 53)"
    by (intro add_mono e2' mult_left_mono e1') simp
  also have "\<dots> \<le> 100 * (2 * x) / 2 ^ 53 + 100 * (x / 2 ^ 53)"
    using u2 by (simp add: divide_right_mono)
  also have "\<dots> = 300 * x / 2 ^ 53"
    by simp
  finally have err: "\<bar>v - y\<bar> \<le> 300 * x / 2 ^ 53" .
  have "600 * real tot < 2 ^ 53"
  proof -
    have "real tot < 2 ^ 40" using small by (metis of_nat_less_iff of_nat_numeral of_nat_power)
    then have "600 * real tot < 600 * 2 ^ 40" by simp
    also have "\<dots> \<le> (2::real) ^ 53" by simp
    finally show ?thesis .
  qed
  then have "300 * x / 2 ^ 53 < 1 / real_of_int (2 * m)"
    using m by (simp add: x_def field_simps)
  then have close: "\<bar>v - y\<bar> < 1 / real_of_int (2 * m)"
    using err by linarith
  have int_y: "y * real_of_int (2 * m) = real_of_int (200 * int tot)"
    using m by (simp add: y_def)
  have notie': "(200 * int tot) mod (2 * m) \<noteq> m"
    using notie by (simp add: m_def)
  have "\<lfloor>v + 1 / 2\<rfloor> = \<lfloor>y + 1 / 2\<rfloor>"
    using m int_y notie' close by (rule near_round)
  moreover have "overallScore tot cnt = Math_round (a2, b2)"
    using cnt by (simp add: overallScore_def Let_def fdiv_def fmul_def dbl_def a2_def b2_def a1_def b1_def m_def mult.commute)
  moreover have "Math_round (a2, b2) = \<lfloor>v + 1 / 2\<rfloor>"
    unfolding v_def using b2 by (rule Math_round_floor)
  moreover have "y = 100 * real tot / real (cnt * 5)"
    by (simp add: y_def m_def mult.commute)
  ultimately show ?thesis
    by (simp add: round_def)
qed

subsection \<open>The identity check of the second server\<close>

text \<open>
  Claim C4. In the second server the registered name is itself appended to the candidate
  lines and compared with its own normal form. So the check reports a match for every
  document text and every registered name, and the handler never sends the response that
  asks to upload a document containing the registered name again.
\<close>
theorem exact_normalized_check_always_matches:
  "hasMatch txt officialCompanyName \<and> fst (check_file_second ev req w) \<noteq> NameMismatch m n"
  by (auto simp add: hasMatch_always check_file_second_def identity_gate_second_def review_def
        Let_def split: option.splits sum.splits)

subsection \<open>Onboarding\<close>

text \<open>
  Claim C7. A request for question 1 whose uploaded document reads
  \<open>Our Company Name: Acme Corp\<close>, new line, \<open>We have a written OHS policy...\<close>: the
  handler of \<open>server.js\<close> extracts the name \<open>Acme Corp\<close> and answers with the request to
  confirm it (\<open>requireCompanyNameConfirmation: true\<close>, \<open>detectedCompanyName: "Acme Corp"\<close>).
  The only change of the state is the removal of the uploaded file: no prompt is sent to
  the LLM and no verdict is stored. This holds for every state of the storage, in
  particular when no name is recorded for the subject.
\<close>
theorem onboarding_upload_asks_for_confirmation:
  assumes "req_file req = Some f"
    and "questionNumber req = Some ''1''"
    and "extractText ev f None = Inr acme_policy"
    and "path f \<in> set (tmp_files w)"
  shows "check_file_server ev req w =
    (ConfirmName (''Detected company name: '' @ [CHR 0x22] @ ''Acme Corp'' @ [CHR 0x22] @
                  ''. Please confirm or correct this.'') ''Acme Corp'',
     w\<lparr>tmp_files := removeAll (path f) (tmp_files w)\<rparr>)"
  using assms
  by (simp add: check_file_server_def identity_gate_server_def unlinkSync_def parseInt_one
        extract_acme acme_readable Let_def)

theorem onboarding_upload_asks_for_confirmation_witness:
  "select_supplier_name ''a@x.com'' (store [] [] [''tmp/upload1'']) = None \<and>
   check_file_server (fixed_env (Inr acme_policy) (Inl ''not called''))
     (upload_request ''a@x.com'' (Some ''1'')) (store [] [] [''tmp/upload1'']) =
    (ConfirmName (''Detected company name: '' @ [CHR 0x22] @ ''Acme Corp'' @ [CHR 0x22] @
                  ''. Please confirm or correct this.'') ''Acme Corp'',
     store [] [] [])"
  using onboarding_upload_asks_for_confirmation
    [of "upload_request ''a@x.com'' (Some ''1'')"
        "\<lparr>path = ''tmp/upload1'', originalname = ''policy.txt''\<rparr>"
        "fixed_env (Inr acme_policy) (Inl ''not called'')" "store [] [] [''tmp/upload1'']"]
  by (simp add: upload_request_def fixed_env_def store_def select_supplier_name_def)

subsection \<open>Unreadable documents\<close>

text \<open>
  Claim C8. When the handler has an uploaded file and a question number and the text
  extracted from the file is empty or white space only, it answers
  \<open>{success: false, feedback: "Your document could not be read. ..."}\<close>. Apart from the
  removal of the uploaded file the state is the one before the request: nothing is
  stored and no prompt is sent to the LLM; the answer does not depend on the names on
  record, the document is not compared with any. This holds in \<open>server.js\<close> and, once a
  name is on record for the subject (which that handler requires before it extracts the
  text), in the second server.
\<close>
theorem unreadable_document_is_rejected:
  assumes "req_file req = Some f"
    and "parseInt (questionNumber req) = Some q"
    and "q \<noteq> 0"
    and "path f \<in> set (tmp_files w)"
    and "\<forall>lang. extractText ev f lang = Inr txt"
    and "\<forall>c\<in>set txt. is_space c"
  shows "check_file_server ev req w =
           (Rejected unreadable_message, w\<lparr>tmp_files := removeAll (path f) (tmp_files w)\<rparr>)
     \<and> ((\<exists>n. select_supplier_name (body_email req) w = Some n \<and> trim n \<noteq> []) \<longrightarrow>
        check_file_second ev req w =
           (Rejected unreadable_message, w\<lparr>tmp_files := removeAll (path f) (tmp_files w)\<rparr>))"
proof -
  have blank: "trim txt = []"
    using assms(6) by (rule trim_blank)
  show ?thesis
    using assms(1-5) blank
    by (auto simp add: check_file_server_def check_file_second_def unlinkSync_def Let_def)
qed

theorem unreadable_document_is_rejected_witness:
  "check_file_server (fixed_env (Inr blank_page) (Inl ''not called''))
     (upload_request ''a@x.com'' (Some ''2''))
     (store [] [(''a@x.com'', ''Acme Corp'')] [''tmp/upload1'']) =
     (Rejected unreadable_message, store [] [(''a@x.com'', ''Acme Corp'')] [])
   \<and> check_file_second (fixed_env (Inr blank_page) (Inl ''not called''))
     (upload_request ''a@x.com'' (Some ''2''))
     (store [] [(''a@x.com'', ''Acme Corp'')] [''tmp/upload1'']) =
     (Rejected unreadable_message, store [] [(''a@x.com'', ''Acme Corp'')] [])"
proof -
  have spaces: "\<forall>c\<in>set blank_page. is_space c"
    by code_simp
  have name: "trim ''Acme Corp'' \<noteq> []"
    by code_simp
  show ?thesis
    using unreadable_document_is_rejected
      [of "upload_request ''a@x.com'' (Some ''2'')"
          "\<lparr>path = ''tmp/upload1'', originalname = ''policy.txt''\<rparr>" 2
          "store [] [(''a@x.com'', ''Acme Corp'')] [''tmp/upload1'']"
          "fixed_env (Inr blank_page) (Inl ''not called'')" blank_page]
      spaces name
    by (simp add: upload_request_def fixed_env_def store_def select_supplier_name_def
          parseInt_two)
qed

subsection \<open>The two identity strategies on the examples\<close>

text \<open>
  The token-overlap check of \<open>server.js\<close> accepts \<open>Metro Telworks Pte Ltd\<close> for every
  document that contains \<open>METRO TELWORKS\<close>; the exact-normalized check of the second
  server accepts every document (\<open>hasMatch_always\<close>).
\<close>
lemma metro_mentioned:
  "name_mentioned (pre @ ''METRO TELWORKS'' @ post) ''Metro Telworks Pte Ltd''"
proof -
  have w: "supplierWords ''Metro Telworks Pte Ltd'' = [''metro'', ''telworks'', ''pte'', ''ltd'']"
    by code_simp
  have n: "docTextNorm ''METRO TELWORKS'' = ''metro telworks''"
    by code_simp
  have i: "str_includes ''metro telworks'' ''metro''" "str_includes ''metro telworks'' ''telworks''"
    by code_simp+
  have d: "docTextNorm (pre @ ''METRO TELWORKS'' @ post) =
           docTextNorm pre @ ''metro telworks'' @ docTextNorm post"
    by (simp only: docTextNorm_append n)
  have "str_includes (docTextNorm (pre @ ''METRO TELWORKS'' @ post)) ''metro''"
    and "str_includes (docTextNorm (pre @ ''METRO TELWORKS'' @ post)) ''telworks''"
    unfolding d by (intro includes_suffix includes_prefix i)+
  then show ?thesis
    by (simp add: name_mentioned_def matchCount_def w)
qed

text \<open>
  Claim C5. The token-overlap check of \<open>server.js\<close> accepts \<open>Metro Telworks Pte Ltd\<close> for
  a document with the line \<open>METRO TELWORKS\<close> and rejects \<open>Acme Corp\<close> for a document
  about Beta Industries. The exact-normalized check of the second server accepts the
  first pair, and it accepts the second pair as well: the only candidate it compares
  \<open>Acme Corp\<close> with is \<open>Acme Corp\<close> itself, and the handler goes on to the LLM and stores
  a verdict. (For the first pair, too, the line of the document is not what matches:
  \<open>Pte\<close> is not a suffix that is stripped.)
\<close>
theorem identity_examples:
  "name_mentioned metro_document ''Metro Telworks Pte Ltd'' \<and>
   hasMatch metro_document ''Metro Telworks Pte Ltd'' \<and>
   \<not> name_mentioned beta_document ''Acme Corp'' \<and>
   hasMatch beta_document ''Acme Corp'' \<and>
   candidateNames beta_document ''Acme Corp'' = [''Acme Corp''] \<and>
   normalizeCompanyName ''METRO TELWORKS'' = ''metrotelworks'' \<and>
   normalizeCompanyName ''Metro Telworks Pte Ltd'' = ''metrotelworkspte'' \<and>
   fst (check_file_second (fixed_env (Inr beta_document) (Inr ''Score: Robust (3/5)''))
          (upload_request ''a@x.com'' (Some ''2''))
          (store [] [(''a@x.com'', ''Acme Corp'')] [''tmp/upload1''])) =
     Reviewed (Some 3) ''Score: Robust (3/5)''"
  by code_simp

subsection \<open>The uploaded file\<close>

text \<open>
  A request with an uploaded file that has no valid question number, or whose text
  extraction throws, leaves the state as it was in both servers: the uploaded file
  stays.
\<close>
lemma early_exits_keep_the_file:
  assumes "req_file req = Some f"
    and "parseInt (questionNumber req) = None \<or> parseInt (questionNumber req) = Some 0 \<or>
         (\<exists>e. \<forall>lang. extractText ev f lang = Inl e)"
  shows "snd (check_file_server ev req w) = w \<and> snd (check_file_second ev req w) = w"
  using assms
  by (auto simp add: check_file_server_def check_file_second_def Let_def split: option.splits)

text \<open>
  Claim C9. The uploaded file is removed by the one \<open>unlinkSync\<close> that follows the text
  extraction. A request that carries a file but no valid question number returns before
  it, and an exception of the extraction skips it: in both runs the file is still in
  the directory when the handler has answered. The second server does the same, and
  also when no name is on record for the subject.
\<close>
theorem uploaded_file_left_behind:
  "check_file_server (fixed_env (Inr ''policy'') (Inr ''ok'')) (upload_request ''a@x.com'' None)
     (store [] [] [''tmp/upload1'']) =
     (Rejected ''Invalid or missing question number.'', store [] [] [''tmp/upload1'']) \<and>
   check_file_server (fixed_env (Inl ''Invalid PDF structure'') (Inr ''ok''))
     (upload_request ''a@x.com'' (Some ''2'')) (store [] [] [''tmp/upload1'']) =
     (ServerError ''Invalid PDF structure'', store [] [] [''tmp/upload1'']) \<and>
   check_file_second (fixed_env (Inl ''Invalid PDF structure'') (Inr ''ok''))
     (upload_request ''a@x.com'' (Some ''2''))
     (store [] [(''a@x.com'', ''Acme Corp'')] [''tmp/upload1'']) =
     (ServerError ''Invalid PDF structure'',
      store [] [(''a@x.com'', ''Acme Corp'')] [''tmp/upload1'']) \<and>
   snd (check_file_second (fixed_env (Inr ''policy'') (Inr ''ok''))
     (upload_request ''a@x.com'' (Some ''2'')) (store [] [] [''tmp/upload1''])) =
     store [] [] [''tmp/upload1'']"
  by code_simp

subsection \<open>Single-score extraction\<close>


text \<open>
  On the fifty replies \<open>Score: <BandName> (<digit>/5)\<close>, with the five band names and the
  ten digits, the score is the digit.
\<close>
lemma parse_score_canonical_replies:
  "\<forall>band\<in>set band_names. \<forall>d\<in>set digit_chars.
     parse_score (''Score: '' @ band @ '' ('' @ [d] @ ''/5)'') = Some (digit_val d)"
  by code_simp



subsection \<open>Multi-score extraction\<close>

text \<open>
  The example of claim C6 holds for every text around the two scores: when
  \<open>Score: Robust (3/5)\<close> and, later, \<open>Score: 2/5\<close> are the only occurrences of \<open>Score:\<close>
  (in any casing) in a text, the scan returns \<open>[3, 2]\<close>.
\<close>
lemma extractAllScores_example:
  assumes shape: "txt = pre @ ''Score: Robust (3/5)'' @ mid @ ''Score: 2/5'' @ post"
    and only: "\<forall>i. occurs_at ''Score:'' txt i \<longrightarrow> i = length pre \<or> i = length pre + 19 + length mid"
  shows "extractAllScores (Some txt) = Some [3, 2]"
proof -
  let ?r = all_scores_rx
  define A where "A = ''Score: Robust (3/5)''"
  define B where "B = ''Score: 2/5''"
  let ?A = A and ?B = B
  let ?a = "length pre" and ?b = "length pre + 19 + length mid"
  have lenA: "length A = 19" and lenB: "length B = 10"
    by (simp_all add: A_def B_def)
  have whole: "txt = pre @ A @ mid @ B @ post"
    using shape by (simp add: A_def B_def)
  note match_robust = match_robust [folded A_def]
  note match_bare = match_bare [folded B_def]
  have three: "Number_digits ''3'' = 3" and two: "Number_digits ''2'' = 2"
    by code_simp+
  have nomatch: "rmatch ?r (i, drop i txt, []) = []" if "i \<noteq> ?a" and "i \<noteq> ?b" for i
  proof (rule ccontr)
    assume "rmatch ?r (i, drop i txt, []) \<noteq> []"
    then have "occurs_at ''Score:'' (drop i txt) 0"
      by (rule all_scores_match_starts)
    then have "occurs_at ''Score:'' txt i"
      by (simp add: occurs_at_def)
    then show False
      using only that by blast
  qed
  have dropA: "drop ?a txt = ?A @ mid @ ?B @ post"
    by (simp add: whole)
  have dropM: "drop (?a + 19 + i) txt = drop i (mid @ ?B @ post)" for i
    by (simp add: whole lenA)
  have dropB: "drop ?b txt = ?B @ post"
    by (simp add: whole lenA)
  have dropP: "drop (?b + 10 + i) txt = drop i post" for i
    by (simp add: whole lenA lenB)
  \<comment> \<open>the first search\<close>
  have "\<forall>i<?a. rmatch ?r (0 + i, drop i txt, []) = []"
    using nomatch by simp
  then have "rx_search ?r 0 txt = rx_search ?r (0 + ?a) (drop ?a txt)"
    by (intro search_skip) (simp_all add: whole)
  also have "\<dots> = Some (?a, hd (rmatch ?r (?a, ?A @ mid @ ?B @ post, [])))"
    unfolding dropA using match_robust [of ?a "mid @ ?B @ post"] by (simp add: search_here)
  finally have search1: "rx_search ?r 0 txt = Some (?a, (?a + 19, mid @ ?B @ post, [(1, ''3'')]))"
    using match_robust [of ?a "mid @ ?B @ post"] by simp
  \<comment> \<open>the second search\<close>
  have "\<forall>i<length mid. rmatch ?r (?a + 19 + i, drop i (mid @ ?B @ post), []) = []"
  proof (intro allI impI)
    fix i assume "i < length mid"
    then show "rmatch ?r (?a + 19 + i, drop i (mid @ ?B @ post), []) = []"
      using nomatch [of "?a + 19 + i"] by (simp only: dropM)
  qed
  then have "rx_search ?r (?a + 19) (mid @ ?B @ post) =
             rx_search ?r (?a + 19 + length mid) (drop (length mid) (mid @ ?B @ post))"
    by (intro search_skip) simp_all
  also have "\<dots> = Some (?b, hd (rmatch ?r (?b, ?B @ post, [])))"
    using match_bare [of ?b post] by (simp add: search_here)
  finally have search2: "rx_search ?r (?a + 19) (mid @ ?B @ post) =
                           Some (?b, hd (rmatch ?r (?b, ?B @ post, [])))" .
  from match_bare [of ?b post] obtain k where k: "k \<le> length post"
    and end2: "hd (rmatch ?r (?b, ?B @ post, [])) = (?b + 10 + k, drop k post, [(1, ''2'')])"
    by blast
  \<comment> \<open>the third search\<close>
  have "\<forall>i\<le>length (drop k post). rmatch ?r (?b + 10 + k + i, drop i (drop k post), []) = []"
  proof (intro allI impI)
    fix i
    have "drop (?b + 10 + (k + i)) txt = drop (k + i) post"
      by (rule dropP)
    then show "rmatch ?r (?b + 10 + k + i, drop i (drop k post), []) = []"
      using nomatch [of "?b + 10 + (k + i)"] by (simp add: add.assoc add.commute)
  qed
  then have search3: "rx_search ?r (?b + 10 + k) (drop k post) = None"
    by (rule search_none)
  have loop3: "exec_loop ?r (?b + 10 + k) (drop k post) = Some []"
    by (subst exec_loop.simps) (simp only: search3 option.case)
  have "length (drop k post) < length (mid @ ?B @ post)"
    by (simp add: lenB)
  then have loop2: "exec_loop ?r (?a + 19) (mid @ ?B @ post) = Some [2]"
    by (subst exec_loop.simps)
      (simp only: search2 end2 option.case prod.case fst_conv snd_conv loop3 if_True
         map_of.simps, simp add: two)
  have "length (mid @ ?B @ post) < length txt"
    by (simp add: whole lenA)
  then have loop1: "exec_loop ?r 0 txt = Some [3, 2]"
    by (subst exec_loop.simps)
      (simp only: search1 option.case prod.case fst_conv snd_conv loop2 if_True
         map_of.simps, simp add: three)
  have "txt \<noteq> []"
    by (simp add: whole A_def)
  then show ?thesis
    using loop1 by (simp add: extractAllScores_def)
qed

text \<open>
  Claim C6. On a text with \<open>Score: Robust (3/5)\<close> and later \<open>Score: 2/5\<close> the scan returns
  \<open>[3, 2]\<close>. It does not collect every number that follows \<open>Score:\<close>: the optional band
  word \<open>\w+\<close> also matches digits and is tried first, so of a bare number of two or three
  digits only the last digit is left for the group that is collected. \<open>Score: 100\<close>
  yields \<open>[0]\<close>, \<open>Score: 45/5\<close> yields \<open>[5]\<close>.
\<close>
theorem bare_number_loses_leading_digits:
  "extractAllScores (Some ''Summary: fine. Score: Robust (3/5) Later: Score: 2/5 done'') =
     Some [3, 2] \<and>
   extractAllScores (Some ''Score: 100'') = Some [0] \<and>
   extractAllScores (Some ''Score: 45/5'') = Some [5] \<and>
   extractAllScores (Some ''Score: 70'') = Some [0]"
  by code_simp

subsection \<open>The overall percentage can exceed 100\<close>



subsection \<open>The score of the session summary and the LLM\<close>

text \<open>
  In the second server the score of the summary is computed from the stored verdicts
  before the LLM is called, and the reply of the LLM only supplies the prose: two runs
  on the same stored verdicts that both return a summary return the same score and
  store the same score.
\<close>
lemma second_summary_score_ignores_reply:
  assumes "session_summary_second ev1 e w = Some (Summary f1 s1, w1)"
    and "session_summary_second ev2 e w = Some (Summary f2 s2, w2)"
  shows "s1 = s2 \<and> map gemini_score (sessions w1) = map gemini_score (sessions w2)"
  using assms
  by (auto simp add: session_summary_second_def update_session_def Let_def
        split: if_splits option.splits sum.splits)

text \<open>
  Claim C1. The handler of \<open>server.js\<close> computes no score of its own: the score it
  returns and stores is the one the LLM writes in its summary, read from the field
  \<open>score\<close> of a JSON reply or from \<open>score: <number>\<close> in a plain reply. On the same
  stored verdict, an LLM that proposes 90 and one that proposes 10 give the scores 90
  and 10. The second server returns 60 (one verdict of weight 3 out of 5) for both
  replies.
\<close>
theorem server_summary_score_is_the_llm_score:
  "fst (session_summary_server (summary_env (json_reply ''90'')) ''a@x.com''
         (store [verdict ''a@x.com'' 1 ''Score: Robust (3/5)''] [] [])) =
     Summary (JString ''Sound policy.'') (JNumber 90) \<and>
   fst (session_summary_server (summary_env (json_reply ''10'')) ''a@x.com''
         (store [verdict ''a@x.com'' 1 ''Score: Robust (3/5)''] [] [])) =
     Summary (JString ''Sound policy.'') (JNumber 10) \<and>
   fst (session_summary_server (summary_env ''Sound policy. Score: 90'') ''a@x.com''
         (store [verdict ''a@x.com'' 1 ''Score: Robust (3/5)''] [] [])) =
     Summary (JString ''Sound policy. Score: 90'') (JNumber 90) \<and>
   map_option fst (session_summary_second (summary_env (json_reply ''90'')) ''a@x.com''
         (store [verdict ''a@x.com'' 1 ''Score: Robust (3/5)''] [] [])) =
     Some (Summary (JString ''Sound policy.'') (JNumber 60)) \<and>
   map_option fst (session_summary_second (summary_env (json_reply ''10'')) ''a@x.com''
         (store [verdict ''a@x.com'' 1 ''Score: Robust (3/5)''] [] [])) =
     Some (Summary (JString ''Sound policy.'') (JNumber 60))"
  by code_simp

subsection \<open>The overall percentage\<close>

text \<open>
  Claim C3, as stated, fails twice. With no stored verdict at all the handler answers
  with status 422 and no percentage, where the claim has the percentage 0. And for eight
  verdicts with the scores 3, 3, 3, 3, 3, 3, 3, 2 the exact percentage is 57.5, which
  rounds to 58, while the handler returns 57: the double \<open>23 / 40\<close> lies below 0.575 and
  its product with 100 is the double below 57.5.
\<close>
theorem overall_percent_counterexamples:
  "map_option fst (session_summary_second (fixed_env (Inr []) (Inr ''fine'')) ''a@x.com''
      (store [] [] [])) = Some NoAnswerData \<and>
   spec_overallPercent (parsed_scores []) = 0 \<and>
   parsed_scores eight_verdicts = [3, 3, 3, 3, 3, 3, 3, 2] \<and>
   map_option fst (session_summary_second (fixed_env (Inr []) (Inr ''fine'')) ''a@x.com''
      (store eight_verdicts [] [])) = Some (Summary (JString ''fine'') (JNumber 57)) \<and>
   spec_overallPercent (parsed_scores eight_verdicts) = 58"
  by code_simp

text \<open>
  Claim C3, amended. When at least one verdict is stored for the subject and the LLM
  call returns, the handler of the second server returns and stores the percentage
  \<open>pct\<close> computed from \<open>total\<close>, the sum of all scores parsed from all verdict texts, and
  \<open>count\<close>, their number, with \<open>maxPossible = count \<times> 5\<close>. It is 0 when no score was
  parsed, and it is \<open>round(100 \<times> total / maxPossible)\<close> whenever that quotient is not
  exactly halfway between two integers (for totals below \<open>2^40\<close>).
\<close>
theorem overall_percent_of_stored_verdicts:
  fixes ev :: env and e :: string and w :: world
  defines "rows \<equiv> select_answers e w"
  defines "scores \<equiv> parsed_scores rows"
  defines "pct \<equiv> overallScore (sum_list scores) (length scores)"
  defines "feedback \<equiv> \<lambda>aiText. read_reply_second ev aiText"
  assumes stored: "rows \<noteq> []"
    and reply: "callGroq ev (summary_prompt rows) = Inr aiText"
  shows "session_summary_second ev e w =
           Some (Summary (feedback aiText) (JNumber (of_int pct)),
                 update_session e (feedback aiText) (JNumber (of_int pct))
                   (w\<lparr>llm_calls := llm_calls w @ [summary_prompt rows]\<rparr>))
         \<and> (length scores = 0 \<longrightarrow> pct = 0)
         \<and> (0 < length scores \<and> sum_list scores < 2 ^ 40 \<and>
              (200 * int (sum_list scores)) mod (10 * int (length scores)) \<noteq> 5 * int (length scores)
              \<longrightarrow> pct = spec_overallPercent scores)"
proof -
  have t: "tally rows (0, 0) = Some (sum_list scores, length scores)"
    using tally_parsed [of rows 0 0] by (simp add: scores_def)
  have 1: "session_summary_second ev e w =
           Some (Summary (feedback aiText) (JNumber (of_int pct)),
                 update_session e (feedback aiText) (JNumber (of_int pct))
                   (w\<lparr>llm_calls := llm_calls w @ [summary_prompt rows]\<rparr>))"
    using stored reply t
    by (simp add: session_summary_second_def Let_def rows_def [symmetric] pct_def feedback_def)
  have 2: "length scores = 0 \<longrightarrow> pct = 0"
    by (simp add: pct_def overallScore_def)
  have 3: "pct = spec_overallPercent scores"
    if "0 < length scores" and "sum_list scores < 2 ^ 40"
      and "(200 * int (sum_list scores)) mod (10 * int (length scores)) \<noteq> 5 * int (length scores)"
    using overallScore_rounds [OF that] that(1) by (simp add: pct_def spec_overallPercent_def)
  show ?thesis
    using 1 2 3 by blast
qed

theorem overall_percent_of_stored_verdicts_witness:
  "map_option fst (session_summary_second (fixed_env (Inr []) (Inr ''fine'')) ''a@x.com''
      (store two_verdicts [] [])) = Some (Summary (JString ''fine'') (JNumber 50)) \<and>
   spec_overallPercent (parsed_scores two_verdicts) = 50"
proof -
  let ?ev = "fixed_env (Inr []) (Inr ''fine'')"
  let ?w = "store two_verdicts [] []"
  have rows: "select_answers ''a@x.com'' ?w = two_verdicts"
    by code_simp
  have stored: "select_answers ''a@x.com'' ?w \<noteq> []"
    unfolding rows by (simp add: two_verdicts_def)
  have reply: "callGroq ?ev (summary_prompt (select_answers ''a@x.com'' ?w)) = Inr ''fine''"
    by (simp add: fixed_env_def)
  have scores: "parsed_scores two_verdicts = [3, 2]"
    by code_simp
  have spec: "spec_overallPercent [3, 2] = 50"
    by code_simp
  have prose: "read_reply_second ?ev ''fine'' = JString ''fine''"
    by code_simp
  from overall_percent_of_stored_verdicts [OF stored reply] show ?thesis
    by (simp add: rows scores spec prose)
qed

end
